theory Spec2Isabelle
  imports Complex_Main "HOL-Library.Product_Lexorder"
begin

section \<open>Numbers and arrays\<close>

text \<open>
  The notebook computes on numpy arrays of IEEE doubles. A double is modelled as a value
  of \<open>fl\<close>: a finite real number, or \<open>NonFin\<close>, which stands for any of \<open>inf\<close>,
  \<open>-inf\<close> and \<open>nan\<close>. Arithmetic on finite values is exact real arithmetic (rounding and
  overflow are outside the model). numpy does not raise on a division by zero: it warns
  and stores \<open>inf\<close> or \<open>nan\<close>, so \<open>fdiv\<close> yields \<open>NonFin\<close> there. In the two functions
  modelled here a non-finite operand always gives a non-finite result (no finite value is
  ever divided by an infinite one), so the three non-finite doubles need not be told apart.
\<close>

datatype fl = Fin real | NonFin

fun fadd :: "fl \<Rightarrow> fl \<Rightarrow> fl" where
  "fadd (Fin x) (Fin y) = Fin (x + y)"
| "fadd _ _ = NonFin"

fun fsub :: "fl \<Rightarrow> fl \<Rightarrow> fl" where
  "fsub (Fin x) (Fin y) = Fin (x - y)"
| "fsub _ _ = NonFin"

fun fmul :: "fl \<Rightarrow> fl \<Rightarrow> fl" where
  "fmul (Fin x) (Fin y) = Fin (x * y)"
| "fmul _ _ = NonFin"

fun fdiv :: "fl \<Rightarrow> fl \<Rightarrow> fl" where
  "fdiv (Fin x) (Fin y) = (if y = 0 then NonFin else Fin (x / y))"
| "fdiv _ _ = NonFin"

fun is_fin :: "fl \<Rightarrow> bool" where
  "is_fin (Fin _) = True"
| "is_fin NonFin = False"

fun the_fin :: "fl \<Rightarrow> real" where
  "the_fin (Fin x) = x"
| "the_fin NonFin = 0"

text \<open>\<open>np.sum\<close> of a one-dimensional array; the sum of the empty array is \<open>0.0\<close>.\<close>

definition fl_sum :: "fl list \<Rightarrow> fl" where
  "fl_sum xs = foldl fadd (Fin 0) xs"

text \<open>
  The exceptions. \<open>ValueError\<close> and \<open>ZeroDivisionError\<close> are the ones Python, numpy and
  scipy raise in the two functions. The last three are the error kinds named by the
  specification; no statement of the notebook raises them.
\<close>

datatype error = ValueError | ZeroDivisionError
  | InvalidParameter | AsymmetryError | DegenerateSpectrum

text \<open>
  A two-dimensional array is the list of its rows. \<open>is_array2 n m A\<close> says that \<open>A\<close> has
  shape \<open>(n, m)\<close>; the empty list is the array of shape \<open>(0, 0)\<close>. \<open>ncols\<close> is
  \<open>A.shape[1]\<close>.
\<close>

definition is_array2 :: "nat \<Rightarrow> nat \<Rightarrow> 'a list list \<Rightarrow> bool" where
  "is_array2 n m A \<longleftrightarrow> length A = n \<and> list_all (\<lambda>r. length r = m) A"

definition ncols :: "'a list list \<Rightarrow> nat" where
  "ncols A = (case A of [] \<Rightarrow> 0 | r # _ \<Rightarrow> length r)"

definition all_fin :: "fl list list \<Rightarrow> bool" where
  "all_fin A \<longleftrightarrow> list_all (list_all is_fin) A"

definition symmetric :: "'a list list \<Rightarrow> bool" where
  "symmetric A \<longleftrightarrow>
     list_all (\<lambda>i. list_all (\<lambda>j. A ! i ! j = A ! j ! i) [0..<length A]) [0..<length A]"

text \<open>\<open>np.zeros((n, m))\<close>.\<close>

definition zeros2 :: "nat \<Rightarrow> nat \<Rightarrow> fl list list" where
  "zeros2 n m = replicate n (replicate m (Fin 0))"

text \<open>
  numpy's broadcasting of a two-dimensional right-hand side \<open>src\<close> to the shape
  \<open>(n, m)\<close>: each axis of \<open>src\<close> must have the target's length or length 1 (then it is
  repeated); otherwise the assignment or the operation raises \<open>ValueError\<close> (\<open>None\<close>).
\<close>

definition broadcast_to :: "nat \<Rightarrow> nat \<Rightarrow> 'a list list \<Rightarrow> 'a list list option" where
  "broadcast_to n m src =
     (let r = length src; c = ncols src
      in if (r = n \<or> r = 1) \<and> (c = m \<or> c = 1)
         then Some (map (\<lambda>i. map (\<lambda>j. src ! (if r = 1 then 0 else i) ! (if c = 1 then 0 else j))
                                 [0..<m]) [0..<n])
         else None)"

text \<open>\<open>mat[:n, :n] = B\<close>, for \<open>B\<close> already of shape \<open>(n, n)\<close>.\<close>

definition set_block :: "nat \<Rightarrow> 'a list list \<Rightarrow> 'a list list \<Rightarrow> 'a list list" where
  "set_block n B mat =
     map (\<lambda>i. if i < n then B ! i @ drop n (mat ! i) else mat ! i) [0..<length mat]"

text \<open>\<open>mat[n, :-1] = xs\<close>: row \<open>n\<close> but for its last entry.\<close>

definition set_row_init :: "nat \<Rightarrow> 'a list \<Rightarrow> 'a list list \<Rightarrow> 'a list list" where
  "set_row_init n xs mat = mat[n := xs @ drop (length (mat ! n) - 1) (mat ! n)]"

text \<open>\<open>mat[:-1, n] = xs\<close>: column \<open>n\<close> but for its last entry.\<close>

definition set_col_init :: "nat \<Rightarrow> 'a list \<Rightarrow> 'a list list \<Rightarrow> 'a list list" where
  "set_col_init n xs mat =
     map (\<lambda>i. if i < length mat - 1 then (mat ! i)[n := xs ! i] else mat ! i) [0..<length mat]"

section \<open>The augmenter: \<open>matrix_with_void\<close>\<close>

text \<open>
  \<^verbatim>\<open>
  def matrix_with_void(mat0, p_void) :
      N = mat0.shape[0]
      d_j = np.sum(mat0,axis=1)
      lambda_j = p_void * d_j / (1-p_void)
      mat = np.zeros((N+1,N+1))
      mat[:N,:N] = mat0
      mat[N,:-1] = lambda_j
      mat[:-1,N] = lambda_j
      return mat
  \<close>
  The function has no check of its arguments. The only statement that can raise is the
  block assignment, when \<open>mat0\<close> of shape \<open>(N, M)\<close> does not broadcast to \<open>(N, N)\<close>.
\<close>

text \<open>
  One entry of \<open>lambda_j\<close>: \<open>(p_void * d) / (1 - p_void)\<close>, exact on finite values;
  \<open>leak_rounded\<close> below is the same line with the rounding of each operation.
\<close>

definition leak :: "fl \<Rightarrow> fl \<Rightarrow> fl" where
  "leak p_void d = fdiv (fmul p_void d) (fsub (Fin 1) p_void)"

definition matrix_with_void :: "fl list list \<Rightarrow> fl \<Rightarrow> error + fl list list" where
  "matrix_with_void mat0 p_void =
     (let N = length mat0;
          d_j = map fl_sum mat0;
          lambda_j = map (leak p_void) d_j;
          mat = zeros2 (N + 1) (N + 1)
      in case broadcast_to N N mat0 of
           None \<Rightarrow> Inl ValueError
         | Some B \<Rightarrow>
             let mat = set_block N B mat;
                 mat = set_row_init N lambda_j mat;
                 mat = set_col_init N lambda_j mat
             in Inr mat)"

text \<open>The degree of node \<open>i\<close>: the sum of row \<open>i\<close>.\<close>

definition degree :: "fl list list \<Rightarrow> nat \<Rightarrow> fl" where
  "degree A i = fl_sum (A ! i)"

text \<open>
  The three assignments applied to the zero matrix: the value \<open>matrix_with_void\<close>
  returns for a base of shape \<open>(N, N)\<close>.
\<close>

definition augmented :: "nat \<Rightarrow> fl list list \<Rightarrow> fl \<Rightarrow> fl list list" where
  "augmented N mat0 p =
     set_col_init N (map (leak p) (map fl_sum mat0))
       (set_row_init N (map (leak p) (map fl_sum mat0))
         (set_block N mat0 (zeros2 (N + 1) (N + 1))))"

text \<open>
  The void node's coupling vector of a result: \<open>mat[N, :-1]\<close>, the last row without the
  corner.
\<close>

definition void_coupling :: "error + fl list list \<Rightarrow> fl list" where
  "void_coupling r = (case r of Inl _ \<Rightarrow> [] | Inr M \<Rightarrow> butlast (last M))"

text \<open>
  \<open>x < y\<close> on doubles. A comparison with \<open>nan\<close> is false; the statements below compare
  finite values only.
\<close>

fun fl_lt :: "fl \<Rightarrow> fl \<Rightarrow> bool" where
  "fl_lt (Fin x) (Fin y) = (x < y)"
| "fl_lt _ _ = False"

text \<open>
  The line \<open>lambda_j = p_void * d_j / (1-p_void)\<close> on doubles, for finite operands: each of
  the product, the difference and the quotient is the exact result rounded to a double.
  \<open>rnd\<close> is that rounding, a monotone map of the reals that keeps 0 (overflow aside);
  \<open>leak\<close> on finite values is the case of the rounding that changes nothing.
\<close>

definition leak_rounded :: "(real \<Rightarrow> real) \<Rightarrow> real \<Rightarrow> real \<Rightarrow> real" where
  "leak_rounded rnd p_void d = rnd (rnd (p_void * d) / rnd (1 - p_void))"

section \<open>The solver: \<open>GMFPT_theory\<close>\<close>

text \<open>
  \<^verbatim>\<open>
  def GMFPT_theory (A,weighted=True) :
      N = A.shape[0]
      d = np.sum(A,axis=1)
      E = np.sum(d)/2.
      L = np.diag(d) - A
      L_eigs = eig(L)
      sortidx = np.argsort(L_eigs[0])
      l = np.array([L_eigs[0][i].real for i in sortidx])
      v = np.array([L_eigs[1][:,i].real for i in sortidx])
      T = np.zeros(N)
      dv = np.dot (v,d)
      if not weighted :
          for j in range(N) :
              for i in range(1,N) :
                  T[j] += 1.0/l[i] * (2*E*v[i,j]**2 - v[i,j]*dv[i])
          return float(N)/(N-1.0) * T
      else :
          for j in range(N) :
              for i in range(1,N) :
                  dvi = v[i,j]*dv[i]
                  T[j] += 1.0/l[i]*((2*E)**2*v[i,j]**2 - 2*v[i,j]*2*E*dvi - dvi**2)
          return T/(2*E)
  \<close>
  \<open>scipy.linalg.eig\<close> and \<open>np.argsort\<close> are library routines and parameters of the
  model. \<open>eig L\<close> is the pair \<open>(w, vr)\<close> of the complex eigenvalues and of the array
  whose column \<open>i\<close> is the eigenvector of \<open>w[i]\<close>; \<open>argsort w\<close> is the list of indices
  that sorts \<open>w\<close>. \<open>eig\<close> checks its argument first and raises \<open>ValueError\<close> on an entry
  that is \<open>inf\<close> or \<open>nan\<close>, and on an array that is not square.
\<close>

type_synonym eigsolver = "real list list \<Rightarrow> complex list \<times> complex list list"

type_synonym argsorter = "complex list \<Rightarrow> nat list"

text \<open>\<open>np.diag(d)\<close>.\<close>

definition np_diag :: "fl list \<Rightarrow> fl list list" where
  "np_diag d = map (\<lambda>i. map (\<lambda>j. if i = j then d ! i else Fin 0) [0..<length d]) [0..<length d]"

text \<open>The difference of two arrays of one shape, entry by entry.\<close>

definition mat_sub :: "fl list list \<Rightarrow> fl list list \<Rightarrow> fl list list" where
  "mat_sub X Y = map2 (map2 fsub) X Y"

text \<open>
  \<open>np.diag(d) - A\<close>. For \<open>A\<close> of shape \<open>(N, M)\<close> the subtraction broadcasts \<open>A\<close> against the
  shape \<open>(N, N)\<close>. When \<open>M\<close> is neither \<open>N\<close> nor 1, either the subtraction raises
  \<open>ValueError\<close> or (for \<open>N = 1\<close>) its result is not square and \<open>eig\<close> raises \<open>ValueError\<close>:
  \<open>None\<close> in both cases.
\<close>

definition laplacian :: "fl list list \<Rightarrow> fl list list option" where
  "laplacian A =
     (case broadcast_to (length A) (length A) A of
        None \<Rightarrow> None
      | Some A' \<Rightarrow> Some (mat_sub (np_diag (map fl_sum A)) A'))"

text \<open>
  The lines from \<open>eig(L)\<close> to the arrays \<open>l\<close> and \<open>v\<close>: the real parts of the eigenvalues in
  the order of \<open>sortidx\<close>, and, as row \<open>i\<close> of \<open>v\<close>, the real part of the eigenvector of
  \<open>l[i]\<close>.
\<close>

definition sorted_spectrum :: "eigsolver \<Rightarrow> argsorter \<Rightarrow> real list list \<Rightarrow> real list \<times> real list list" where
  "sorted_spectrum eig argsort L =
     (let L_eigs = eig L;
          sortidx = argsort (fst L_eigs);
          l = map (\<lambda>i. Re (fst L_eigs ! i)) sortidx;
          v = map (\<lambda>i. map (\<lambda>row. Re (row ! i)) (snd L_eigs)) sortidx
      in (l, v))"

text \<open>
  \<open>np.dot(v, d)\<close> for a two-dimensional \<open>v\<close> and a vector \<open>d\<close>. The rows of \<open>v\<close> have the
  length of \<open>d\<close> whenever \<open>eig\<close> answers with \<open>N\<close> eigenvectors of length \<open>N\<close> and \<open>argsort\<close>
  with a permutation of \<open>0..N-1\<close>, as the two routines do; the statements that depend on
  the shapes of \<open>l\<close> and \<open>v\<close> assume them.
\<close>

definition np_dot :: "real list list \<Rightarrow> fl list \<Rightarrow> fl list" where
  "np_dot v d = map (\<lambda>row. fl_sum (map2 (\<lambda>x y. fmul (Fin x) y) row d)) v"

text \<open>The summand of the unweighted loop: \<open>1.0/l[i] * (2*E*v[i,j]**2 - v[i,j]*dv[i])\<close>.\<close>

definition term_unweighted :: "fl \<Rightarrow> real list \<Rightarrow> real list list \<Rightarrow> fl list \<Rightarrow> nat \<Rightarrow> nat \<Rightarrow> fl" where
  "term_unweighted E l v dv i j =
     fmul (fdiv (Fin 1) (Fin (l ! i)))
          (fsub (fmul (fmul (Fin 2) E) (Fin ((v ! i ! j)\<^sup>2)))
                (fmul (Fin (v ! i ! j)) (dv ! i)))"

text \<open>
  The summand of the weighted loop, with \<open>dvi = v[i,j]*dv[i]\<close>:
  \<open>1.0/l[i]*((2*E)**2*v[i,j]**2 - 2*v[i,j]*2*E*dvi - dvi**2)\<close>.
\<close>

definition term_weighted :: "fl \<Rightarrow> real list \<Rightarrow> real list list \<Rightarrow> fl list \<Rightarrow> nat \<Rightarrow> nat \<Rightarrow> fl" where
  "term_weighted E l v dv i j =
     (let dvi = fmul (Fin (v ! i ! j)) (dv ! i)
      in fmul (fdiv (Fin 1) (Fin (l ! i)))
              (fsub (fsub (fmul (fmul (fmul (Fin 2) E) (fmul (Fin 2) E)) (Fin ((v ! i ! j)\<^sup>2)))
                          (fmul (fmul (fmul (Fin (2 * v ! i ! j)) (Fin 2)) E) dvi))
                    (fmul dvi dvi)))"

text \<open>The two nested loops, \<open>T[j] += term i j\<close> for \<open>j\<close> in \<open>range(N)\<close>, \<open>i\<close> in \<open>range(1,N)\<close>.\<close>

definition accumulate :: "(nat \<Rightarrow> nat \<Rightarrow> fl) \<Rightarrow> nat \<Rightarrow> fl list \<Rightarrow> fl list" where
  "accumulate trm N T =
     fold (\<lambda>j T. fold (\<lambda>i T. T[j := fadd (T ! j) (trm i j)]) [1..<N] T) [0..<N] T"

text \<open>
  The final \<open>float(N)/(N-1.0)\<close> divides two Python floats, which raises
  \<open>ZeroDivisionError\<close> on a zero divisor; \<open>T/(2*E)\<close> divides numpy values, which does not.
\<close>

definition GMFPT_theory :: "eigsolver \<Rightarrow> argsorter \<Rightarrow> fl list list \<Rightarrow> bool \<Rightarrow> error + fl list" where
  "GMFPT_theory eig argsort A weighted =
     (let N = length A;
          d = map fl_sum A;
          E = fdiv (fl_sum d) (Fin 2)
      in case laplacian A of
           None \<Rightarrow> Inl ValueError
         | Some L \<Rightarrow>
             if \<not> all_fin L then Inl ValueError
             else
               let (l, v) = sorted_spectrum eig argsort (map (map the_fin) L);
                   T = replicate N (Fin 0);
                   dv = np_dot v d
               in if \<not> weighted then
                    let T = accumulate (term_unweighted E l v dv) N T
                    in if real N - 1 = 0 then Inl ZeroDivisionError
                       else Inr (map (fmul (Fin (real N / (real N - 1)))) T)
                  else
                    let T = accumulate (term_weighted E l v dv) N T
                    in Inr (map (\<lambda>t. fdiv t (fmul (Fin 2) E)) T))"

text \<open>
  The arrays \<open>l\<close> and \<open>v\<close> that \<open>GMFPT_theory\<close> computes for \<open>A\<close>, for use in statements.
\<close>

definition solver_spectrum :: "eigsolver \<Rightarrow> argsorter \<Rightarrow> fl list list \<Rightarrow> real list \<times> real list list" where
  "solver_spectrum eig argsort A =
     (case laplacian A of
        None \<Rightarrow> ([], [])
      | Some L \<Rightarrow> sorted_spectrum eig argsort (map (map the_fin) L))"

text \<open>The matrix \<open>c \<cdot> A\<close>.\<close>

definition scale :: "real \<Rightarrow> fl list list \<Rightarrow> fl list list" where
  "scale c A = map (map (fmul (Fin c))) A"

section \<open>The formulas of the specification\<close>

text \<open>
  The specification's data model, over the reals: the degree of node \<open>i\<close> is the sum of
  row \<open>i\<close>, the total weight \<open>E\<close> is half the sum of all entries, and
  \<open>dv[i] = \<Sum>\<^sub>k v[i,k] \<cdot> d[k]\<close>.
\<close>

definition degrees :: "fl list list \<Rightarrow> real list" where
  "degrees A = map (\<lambda>r. sum_list (map the_fin r)) A"

definition total_weight :: "fl list list \<Rightarrow> real" where
  "total_weight A = sum_list (degrees A) / 2"

definition spec_dv :: "real list list \<Rightarrow> real list \<Rightarrow> nat \<Rightarrow> real" where
  "spec_dv v d i = (\<Sum>k\<leftarrow>[0..<length d]. v ! i ! k * d ! k)"

text \<open>
  The unweighted variant: the sum over the retained modes \<open>i = 1..N-1\<close> of
  \<open>(1/\<lambda>\<^sub>i) \<cdot> (2E \<cdot> v[i,j]\<^sup>2 - v[i,j] \<cdot> dv[i])\<close>, scaled by \<open>N/(N-1)\<close>.
\<close>

definition spec_unweighted :: "nat \<Rightarrow> real \<Rightarrow> real list \<Rightarrow> real list list \<Rightarrow> real list \<Rightarrow> nat \<Rightarrow> real" where
  "spec_unweighted N E l v d j =
     real N / (real N - 1)
     * (\<Sum>i\<leftarrow>[1..<N]. (1 / l ! i) * (2 * E * (v ! i ! j)\<^sup>2 - v ! i ! j * spec_dv v d i))"

text \<open>
  The weighted variant as the specification words it: the sum over the retained modes of
  \<open>(1/\<lambda>\<^sub>i) \<cdot> ((2E)\<^sup>2 \<cdot> v[i,j]\<^sup>2 - 4E \<cdot> v[i,j] \<cdot> dv[i] - dv[i]\<^sup>2)\<close>, divided by \<open>2E\<close>.
\<close>

definition spec_weighted :: "nat \<Rightarrow> real \<Rightarrow> real list \<Rightarrow> real list list \<Rightarrow> real list \<Rightarrow> nat \<Rightarrow> real" where
  "spec_weighted N E l v d j =
     (\<Sum>i\<leftarrow>[1..<N]. (1 / l ! i)
         * ((2 * E)\<^sup>2 * (v ! i ! j)\<^sup>2 - 4 * E * v ! i ! j * spec_dv v d i - (spec_dv v d i)\<^sup>2))
     / (2 * E)"

text \<open>
  The weighted variant with \<open>dvi = v[i,j] \<cdot> dv[i]\<close> in the place of \<open>dv[i]\<close>: the sum over
  the retained modes of \<open>(1/\<lambda>\<^sub>i) \<cdot> ((2E)\<^sup>2 \<cdot> v[i,j]\<^sup>2 - 4E \<cdot> v[i,j] \<cdot> dvi - dvi\<^sup>2)\<close>, divided
  by \<open>2E\<close>.
\<close>

definition spec_weighted_dvi :: "nat \<Rightarrow> real \<Rightarrow> real list \<Rightarrow> real list list \<Rightarrow> real list \<Rightarrow> nat \<Rightarrow> real" where
  "spec_weighted_dvi N E l v d j =
     (\<Sum>i\<leftarrow>[1..<N]. (1 / l ! i)
         * ((2 * E)\<^sup>2 * (v ! i ! j)\<^sup>2 - 4 * E * v ! i ! j * (v ! i ! j * spec_dv v d i)
            - (v ! i ! j * spec_dv v d i)\<^sup>2))
     / (2 * E)"

section \<open>The two functions on a store\<close>

text \<open>
  numpy arrays are objects: a caller's matrix and a function's result could share
  memory. The store is the list of the arrays allocated so far, an address is an index
  into it, and \<open>alloc\<close> appends. Slice assignments and \<open>T[j] += ...\<close> are writes at the
  address of the array they name. The reductions and arithmetic of numpy (\<open>np.sum\<close>,
  \<open>*\<close>, \<open>/\<close>, \<open>np.diag(d) - A\<close>, \<open>np.dot\<close>) return fresh arrays that are never written
  again; they are kept as values. A one-dimensional argument makes \<open>np.sum(.., axis=1)\<close>
  raise numpy's \<open>AxisError\<close>, a \<open>ValueError\<close>.
\<close>

datatype ndarray = Vec "fl list" | Mat "fl list list"

type_synonym heap = "ndarray list"

definition alloc :: "heap \<Rightarrow> ndarray \<Rightarrow> nat \<times> heap" where
  "alloc h x = (length h, h @ [x])"

fun the_vec :: "ndarray \<Rightarrow> fl list" where
  "the_vec (Vec xs) = xs"
| "the_vec (Mat _) = []"

fun the_mat :: "ndarray \<Rightarrow> fl list list" where
  "the_mat (Mat m) = m"
| "the_mat (Vec _) = []"

definition matrix_with_void_h :: "heap \<Rightarrow> nat \<Rightarrow> fl \<Rightarrow> (error + nat) \<times> heap" where
  "matrix_with_void_h h mat0 p_void =
     (case h ! mat0 of
        Vec _ \<Rightarrow> (Inl ValueError, h)
      | Mat m0 \<Rightarrow>
          let N = length m0;
              d_j = map fl_sum m0;
              lambda_j = map (leak p_void) d_j;
              (mat, h) = alloc h (Mat (zeros2 (N + 1) (N + 1)))
          in case broadcast_to N N (the_mat (h ! mat0)) of
               None \<Rightarrow> (Inl ValueError, h)
             | Some B \<Rightarrow>
                 let h = h[mat := Mat (set_block N B (the_mat (h ! mat)))];
                     h = h[mat := Mat (set_row_init N lambda_j (the_mat (h ! mat)))];
                     h = h[mat := Mat (set_col_init N lambda_j (the_mat (h ! mat)))]
                 in (Inr mat, h))"

definition accumulate_h :: "(nat \<Rightarrow> nat \<Rightarrow> fl) \<Rightarrow> nat \<Rightarrow> nat \<Rightarrow> heap \<Rightarrow> heap" where
  "accumulate_h trm N T h =
     fold (\<lambda>j h. fold (\<lambda>i h. h[T := Vec ((the_vec (h ! T))[j := fadd (the_vec (h ! T) ! j) (trm i j)])])
                       [1..<N] h) [0..<N] h"

definition GMFPT_theory_h :: "eigsolver \<Rightarrow> argsorter \<Rightarrow> heap \<Rightarrow> nat \<Rightarrow> bool \<Rightarrow> (error + nat) \<times> heap" where
  "GMFPT_theory_h eig argsort h A weighted =
     (case h ! A of
        Vec _ \<Rightarrow> (Inl ValueError, h)
      | Mat a \<Rightarrow>
          let N = length a;
              d = map fl_sum a;
              E = fdiv (fl_sum d) (Fin 2)
          in case laplacian a of
               None \<Rightarrow> (Inl ValueError, h)
             | Some L \<Rightarrow>
                 if \<not> all_fin L then (Inl ValueError, h)
                 else
                   let (l, v) = sorted_spectrum eig argsort (map (map the_fin) L);
                       (T, h) = alloc h (Vec (replicate N (Fin 0)));
                       dv = np_dot v d
                   in if \<not> weighted then
                        let h = accumulate_h (term_unweighted E l v dv) N T h
                        in if real N - 1 = 0 then (Inl ZeroDivisionError, h)
                           else let (r, h) = alloc h (Vec (map (fmul (Fin (real N / (real N - 1))))
                                                          (the_vec (h ! T))))
                                in (Inr r, h)
                      else
                        let h = accumulate_h (term_weighted E l v dv) N T h;
                            (r, h) = alloc h (Vec (map (\<lambda>t. fdiv t (fmul (Fin 2) E)) (the_vec (h ! T))))
                        in (Inr r, h))"

section \<open>Example inputs\<close>

text \<open>
  Example graphs: the path 0 - 1 - 2 with unit weights; a single edge (two nodes); an
  edge 0 - 1 beside an isolated node 2; a matrix that is neither symmetric nor
  non-negative; two disjoint edges 0 - 1 and 2 - 3 (a disconnected graph).
\<close>

definition path3 :: "fl list list" where
  "path3 = map (map Fin) [[0, 1, 0], [1, 0, 1], [0, 1, 0]]"

definition edge2 :: "fl list list" where
  "edge2 = map (map Fin) [[0, 1], [1, 0]]"

definition edge_iso :: "fl list list" where
  "edge_iso = map (map Fin) [[0, 1, 0], [1, 0, 0], [0, 0, 0]]"

definition skew2 :: "fl list list" where
  "skew2 = map (map Fin) [[0, - 1], [3, 0]]"

definition two_edges :: "fl list list" where
  "two_edges = map (map Fin) [[0, 1, 0, 0], [1, 0, 0, 0], [0, 0, 0, 1], [0, 0, 1, 0]]"

text \<open>
  An \<open>argsort\<close>: the stable sort of the indices by real part, then imaginary part, the
  order numpy gives complex numbers.
\<close>

definition argsort_lex :: argsorter where
  "argsort_lex w = sort_key (\<lambda>i. (Re (w ! i), Im (w ! i))) [0..<length w]"

text \<open>
  An eigensolver given by a table: for the Laplacians of the path, of the path with
  doubled weights and of the two disjoint edges, an orthonormal eigendecomposition
  (eigenvalues in no particular order, eigenvectors as columns). The eigenspaces of the
  two disjoint edges have dimension 2 (eigenvalues 0, 0, 2, 2); any orthonormal basis of
  each is an answer of an eigensolver. An eigenvector of a simple eigenvalue is determined
  up to its sign; for the path the table has the signs \<open>scipy.linalg.eig\<close> returns, the
  eigenvector of the eigenvalue 3 being \<open>(-1, 2, -1)/\<surd>6\<close>.
\<close>

definition lap_path3 :: "real list list" where
  "lap_path3 = [[1, - 1, 0], [- 1, 2, - 1], [0, - 1, 1]]"

definition vecs_path3 :: "complex list list" where
  "vecs_path3 = map (map complex_of_real)
     [[- 1 / sqrt 6, - 1 / sqrt 2, - 1 / sqrt 3],
      [2 / sqrt 6, 0, - 1 / sqrt 3],
      [- 1 / sqrt 6, 1 / sqrt 2, - 1 / sqrt 3]]"

definition lap_two_edges :: "real list list" where
  "lap_two_edges = [[1, - 1, 0, 0], [- 1, 1, 0, 0], [0, 0, 1, - 1], [0, 0, - 1, 1]]"

definition vecs_two_edges :: "complex list list" where
  "vecs_two_edges = map (map complex_of_real)
     [[1 / 2, 1 / 2, 1 / 2, 1 / 2],
      [- 1 / 2, 1 / 2, 1 / 2, - 1 / 2],
      [1 / 2, 1 / 2, - 1 / 2, - 1 / 2],
      [- 1 / 2, 1 / 2, - 1 / 2, 1 / 2]]"

text \<open>The sorted eigenvectors, as rows, that the table gives for the two graphs.\<close>

definition modes_path3 :: "real list list" where
  "modes_path3 =
     [[- 1 / sqrt 3, - 1 / sqrt 3, - 1 / sqrt 3],
      [- 1 / sqrt 2, 0, 1 / sqrt 2],
      [- 1 / sqrt 6, 2 / sqrt 6, - 1 / sqrt 6]]"

definition modes_two_edges :: "real list list" where
  "modes_two_edges =
     [[1 / 2, 1 / 2, 1 / 2, 1 / 2],
      [1 / 2, 1 / 2, - 1 / 2, - 1 / 2],
      [1 / 2, - 1 / 2, 1 / 2, - 1 / 2],
      [1 / 2, - 1 / 2, - 1 / 2, 1 / 2]]"

definition spectra :: "(real list list \<times> complex list \<times> complex list list) list" where
  "spectra =
     [(lap_path3, [3, 1, 0], vecs_path3),
      (map (map ((*) 2)) lap_path3, [6, 2, 0], vecs_path3),
      (lap_two_edges, [2, 0, 0, 2], vecs_two_edges)]"

definition eig_tab :: eigsolver where
  "eig_tab L = (case map_of spectra L of None \<Rightarrow> ([], []) | Some r \<Rightarrow> r)"

text \<open>
  The eigensolver that answers with the same eigenvalues and the opposite eigenvectors:
  an orthonormal eigendecomposition as well.
\<close>

definition flip_signs :: "eigsolver \<Rightarrow> eigsolver" where
  "flip_signs eig L = (fst (eig L), map (map uminus) (snd (eig L)))"

text \<open>
  What makes \<open>(w, vr)\<close> an orthonormal eigendecomposition of the real matrix \<open>L\<close>:
  \<open>L \<cdot> vr[:,i] = w[i] \<cdot> vr[:,i]\<close> for each column, and the columns are orthonormal.
\<close>

definition column :: "'a list list \<Rightarrow> nat \<Rightarrow> 'a list" where
  "column M i = map (\<lambda>row. row ! i) M"

definition dotc :: "complex list \<Rightarrow> complex list \<Rightarrow> complex" where
  "dotc xs ys = sum_list (map2 (*) xs ys)"

definition eigen_ok :: "real list list \<Rightarrow> complex list \<times> complex list list \<Rightarrow> bool" where
  "eigen_ok L r =
     (let w = fst r; vr = snd r; n = length L
      in length w = n \<and> is_array2 n n vr
         \<and> list_all (\<lambda>i. map (\<lambda>row. dotc (map complex_of_real row) (column vr i)) L
                          = map ((*) (w ! i)) (column vr i)) [0..<n]
         \<and> list_all (\<lambda>i. list_all (\<lambda>j. dotc (column vr i) (column vr j) = (if i = j then 1 else 0))
                                    [0..<n]) [0..<n])"

section \<open>Shapes and entries of the augmented matrix\<close>

lemma ncols_array2: "is_array2 n m A \<Longrightarrow> 0 < n \<Longrightarrow> ncols A = m"
  by (cases A) (auto simp: is_array2_def ncols_def)

lemma array2_row: "is_array2 n m A \<Longrightarrow> i < n \<Longrightarrow> length (A ! i) = m"
  by (auto simp: is_array2_def list_all_length)

lemma zeros2_length: "length (zeros2 n m) = n"
  by (simp add: zeros2_def)

lemma zeros2_row: "i < n \<Longrightarrow> zeros2 n m ! i = replicate m (Fin 0)"
  by (simp add: zeros2_def)

lemma broadcast_rows:
  assumes "is_array2 n n A" and "i < n"
  shows "map (\<lambda>j. A ! (if n = 1 then 0 else i) ! (if n = 1 then 0 else j)) [0..<n] = A ! i"
proof -
  have row: "length (A ! i) = n" using array2_row [OF assms] .
  show ?thesis
  proof (rule nth_equalityI)
    show "length (map (\<lambda>j. A ! (if n = 1 then 0 else i) ! (if n = 1 then 0 else j)) [0..<n]) = length (A ! i)"
      using row by simp
  next
    fix j
    assume "j < length (map (\<lambda>j. A ! (if n = 1 then 0 else i) ! (if n = 1 then 0 else j)) [0..<n])"
    then have j: "j < n" by simp
    show "map (\<lambda>j. A ! (if n = 1 then 0 else i) ! (if n = 1 then 0 else j)) [0..<n] ! j = A ! i ! j"
      using j assms(2) by (cases "n = 1") simp_all
  qed
qed

lemma broadcast_square:
  assumes "is_array2 n n A"
  shows "broadcast_to n n A = Some A"
proof (cases "n = 0")
  case True
  with assms show ?thesis by (simp add: broadcast_to_def is_array2_def ncols_def)
next
  case False
  then have c: "ncols A = n" using assms by (simp add: ncols_array2)
  have len: "length A = n" using assms by (simp add: is_array2_def)
  have "map (\<lambda>i. map (\<lambda>j. A ! (if n = 1 then 0 else i) ! (if n = 1 then 0 else j)) [0..<n]) [0..<n]
        = map (\<lambda>i. A ! i) [0..<n]"
    using broadcast_rows [OF assms] by (intro map_cong) simp_all
  also have "\<dots> = A" using len map_nth [of A] by simp
  finally show ?thesis by (simp add: broadcast_to_def c len)
qed

lemma matrix_with_void_square:
  assumes "is_array2 N N mat0"
  shows "matrix_with_void mat0 p =
           Inr (set_col_init N (map (leak p) (map fl_sum mat0))
                 (set_row_init N (map (leak p) (map fl_sum mat0))
                   (set_block N mat0 (zeros2 (N + 1) (N + 1)))))"
proof -
  have "length mat0 = N" using assms by (simp add: is_array2_def)
  then show ?thesis
    using broadcast_square [OF assms] by (simp add: matrix_with_void_def Let_def)
qed

lemma drop_zeros_row: "drop n (replicate (n + 1) x) = [x]"
  by (simp only: drop_replicate) simp

lemma set_block_length: "length (set_block n B mat) = length mat"
  by (simp add: set_block_def)

lemma set_block_nth:
  "i < length mat \<Longrightarrow>
   set_block n B mat ! i = (if i < n then B ! i @ drop n (mat ! i) else mat ! i)"
  by (simp add: set_block_def del: upt_Suc)

lemma set_row_init_length: "length (set_row_init n xs mat) = length mat"
  by (simp add: set_row_init_def)

lemma set_row_init_nth:
  "i < length mat \<Longrightarrow>
   set_row_init n xs mat ! i =
     (if i = n then xs @ drop (length (mat ! n) - 1) (mat ! n) else mat ! i)"
  by (simp add: set_row_init_def nth_list_update)

lemma set_col_init_length: "length (set_col_init n xs mat) = length mat"
  by (simp add: set_col_init_def)

lemma set_col_init_nth:
  "i < length mat \<Longrightarrow>
   set_col_init n xs mat ! i =
     (if i < length mat - 1 then (mat ! i)[n := xs ! i] else mat ! i)"
  by (simp add: set_col_init_def del: upt_Suc)

lemma augmented_length: "length (augmented N mat0 p) = N + 1"
  by (simp add: augmented_def set_col_init_length set_row_init_length set_block_length
      zeros2_length)

lemma augmented_last_row:
  assumes "length mat0 = N"
  shows "augmented N mat0 p ! N = map (leak p) (map fl_sum mat0) @ [Fin 0]"
proof -
  have "augmented N mat0 p ! N
        = set_row_init N (map (leak p) (map fl_sum mat0))
            (set_block N mat0 (zeros2 (N + 1) (N + 1))) ! N"
    by (simp add: augmented_def set_col_init_nth set_row_init_length set_block_length
        zeros2_length)
  also have "\<dots> = map (leak p) (map fl_sum mat0)
                   @ drop N (set_block N mat0 (zeros2 (N + 1) (N + 1)) ! N)"
    by (simp add: set_row_init_nth set_block_length zeros2_length set_block_nth zeros2_row)
  also have "set_block N mat0 (zeros2 (N + 1) (N + 1)) ! N = replicate (N + 1) (Fin 0)"
    by (simp add: set_block_nth zeros2_length zeros2_row)
  also have "drop N (replicate (N + 1) (Fin 0)) = [Fin 0]"
    by (rule drop_zeros_row)
  finally show ?thesis .
qed

lemma augmented_row:
  assumes "is_array2 N N mat0" and "i < N"
  shows "augmented N mat0 p ! i = mat0 ! i @ [leak p (fl_sum (mat0 ! i))]"
proof -
  have len: "length mat0 = N" using assms(1) by (simp add: is_array2_def)
  have row: "length (mat0 ! i) = N" using array2_row [OF assms] .
  have blk: "set_block N mat0 (zeros2 (N + 1) (N + 1)) ! i = mat0 ! i @ [Fin 0]"
    using assms(2) drop_zeros_row [of N "Fin 0"]
    by (simp add: set_block_nth zeros2_length zeros2_row del: replicate_Suc)
  have "augmented N mat0 p ! i
        = (set_row_init N (map (leak p) (map fl_sum mat0))
            (set_block N mat0 (zeros2 (N + 1) (N + 1))) ! i)
          [N := map (leak p) (map fl_sum mat0) ! i]"
    using assms(2)
    by (simp add: augmented_def set_col_init_nth set_row_init_length set_block_length
        zeros2_length)
  also have "\<dots> = (mat0 ! i @ [Fin 0])[N := leak p (fl_sum (mat0 ! i))]"
    using assms(2) len blk
    by (simp add: set_row_init_nth set_block_length zeros2_length)
  also have "\<dots> = mat0 ! i @ [leak p (fl_sum (mat0 ! i))]"
    using row by (simp add: list_update_append)
  finally show ?thesis .
qed

lemma augmented_block:
  assumes "is_array2 N N mat0" and "i < N" and "j < N"
  shows "augmented N mat0 p ! i ! j = mat0 ! i ! j"
  using augmented_row [OF assms(1,2)] array2_row [OF assms(1,2)] assms(3)
  by (simp add: nth_append)

lemma augmented_take:
  assumes "is_array2 N N mat0" and "i < N"
  shows "take N (augmented N mat0 p ! i) = mat0 ! i"
  using augmented_row [OF assms] array2_row [OF assms] by simp

lemma augmented_topleft:
  assumes "is_array2 N N mat0"
  shows "map (take N) (take N (augmented N mat0 p)) = mat0"
proof (rule nth_equalityI)
  show "length (map (take N) (take N (augmented N mat0 p))) = length mat0"
    using assms by (simp add: augmented_length is_array2_def)
next
  fix i
  assume "i < length (map (take N) (take N (augmented N mat0 p)))"
  then have "i < N" by (simp add: augmented_length)
  then show "map (take N) (take N (augmented N mat0 p)) ! i = mat0 ! i"
    using augmented_take [OF assms] by (simp add: augmented_length)
qed

lemma augmented_col:
  assumes "is_array2 N N mat0" and "i < N"
  shows "augmented N mat0 p ! i ! N = leak p (degree mat0 i)"
  using augmented_row [OF assms] array2_row [OF assms]
  by (simp add: nth_append degree_def)

lemma augmented_bottom:
  assumes "length mat0 = N" and "i < N"
  shows "augmented N mat0 p ! N ! i = leak p (degree mat0 i)"
  using augmented_last_row [OF assms(1)] assms by (simp add: nth_append degree_def)

lemma augmented_corner:
  assumes "length mat0 = N"
  shows "augmented N mat0 p ! N ! N = Fin 0"
  using augmented_last_row [OF assms(1)] assms by (simp add: nth_append)

lemma augmented_array2:
  assumes "is_array2 N N mat0"
  shows "is_array2 (N + 1) (N + 1) (augmented N mat0 p)"
proof -
  have len: "length mat0 = N" using assms by (simp add: is_array2_def)
  have "length (augmented N mat0 p ! i) = N + 1" if "i < N + 1" for i
  proof (cases "i < N")
    case True
    then show ?thesis using augmented_row [OF assms True] array2_row [OF assms True] by simp
  next
    case False
    with that have "i = N" by simp
    then show ?thesis using augmented_last_row [OF len] len by simp
  qed
  then show ?thesis
    by (simp add: is_array2_def list_all_length augmented_length)
qed

lemma fl_sum_acc:
  "list_all is_fin xs \<Longrightarrow> foldl fadd (Fin a) xs = Fin (a + sum_list (map the_fin xs))"
proof (induction xs arbitrary: a)
  case Nil
  then show ?case by simp
next
  case (Cons x xs)
  then obtain r where x: "x = Fin r" by (cases x) auto
  from Cons show ?case by (simp add: x add.assoc)
qed

lemma fl_sum_fin: "list_all is_fin xs \<Longrightarrow> fl_sum xs = Fin (sum_list (map the_fin xs))"
  using fl_sum_acc [of xs 0] by (simp add: fl_sum_def)

lemma leak_fin: "p \<noteq> 1 \<Longrightarrow> leak (Fin p) (Fin d) = Fin (p * d / (1 - p))"
  by (simp add: leak_def)

lemma degree_fin:
  assumes "all_fin A" and "i < length A"
  shows "degree A i = Fin (sum_list (map the_fin (A ! i)))"
  using assms by (simp add: degree_def all_fin_def list_all_length fl_sum_fin)

lemma leak_is_fin: "p \<noteq> 1 \<Longrightarrow> is_fin d \<Longrightarrow> is_fin (leak (Fin p) d)"
  by (cases d) (simp_all add: leak_def)

lemma fl_sum_is_fin: "list_all is_fin xs \<Longrightarrow> is_fin (fl_sum xs)"
  by (simp add: fl_sum_fin)

lemma augmented_all_fin:
  assumes "is_array2 N N mat0" and "all_fin mat0" and "p \<noteq> 1"
  shows "all_fin (augmented N mat0 (Fin p))"
proof -
  have len: "length mat0 = N" using assms(1) by (simp add: is_array2_def)
  have rows: "list_all is_fin (mat0 ! i)" if "i < N" for i
    using assms(2) that len by (simp add: all_fin_def list_all_length)
  have "list_all is_fin (augmented N mat0 (Fin p) ! i)" if "i < N + 1" for i
  proof (cases "i < N")
    case True
    then show ?thesis
      using augmented_row [OF assms(1) True, of "Fin p"] rows [OF True] assms(3)
      by (simp add: leak_is_fin fl_sum_is_fin)
  next
    case False
    with that have i: "i = N" by simp
    have "list_all is_fin (map (leak (Fin p)) (map fl_sum mat0))"
      using rows len assms(3) by (simp add: list_all_length leak_is_fin fl_sum_is_fin)
    then show ?thesis using augmented_last_row [OF len, of "Fin p"] i by simp
  qed
  then show ?thesis by (simp add: all_fin_def list_all_length augmented_length)
qed

lemma symmetric_iff:
  "symmetric A \<longleftrightarrow> (\<forall>i<length A. \<forall>j<length A. A ! i ! j = A ! j ! i)"
  by (simp add: symmetric_def list_all_length del: upt_Suc)

lemma augmented_symmetric:
  assumes "is_array2 N N mat0" and "symmetric mat0"
  shows "symmetric (augmented N mat0 p)"
proof -
  have len: "length mat0 = N" using assms(1) by (simp add: is_array2_def)
  have sym: "mat0 ! i ! j = mat0 ! j ! i" if "i < N" and "j < N" for i j
    using assms(2) that len by (simp add: symmetric_iff)
  have "augmented N mat0 p ! i ! j = augmented N mat0 p ! j ! i"
    if "i < N + 1" and "j < N + 1" for i j
  proof (cases "i < N")
    case i: True
    show ?thesis
    proof (cases "j < N")
      case True
      with i show ?thesis using sym by (simp add: augmented_block [OF assms(1)])
    next
      case False
      with that have "j = N" by simp
      then show ?thesis
        using i by (simp add: augmented_col [OF assms(1)] augmented_bottom [OF len])
    qed
  next
    case False
    with that have i: "i = N" by simp
    show ?thesis
    proof (cases "j < N")
      case True
      then show ?thesis
        using i by (simp add: augmented_col [OF assms(1)] augmented_bottom [OF len])
    next
      case False
      with that have "j = N" by simp
      with i show ?thesis by simp
    qed
  qed
  then show ?thesis by (simp add: symmetric_iff augmented_length)
qed

lemma void_coupling_square:
  assumes "is_array2 N N mat0"
  shows "void_coupling (matrix_with_void mat0 p) = map (\<lambda>r. leak p (fl_sum r)) mat0"
proof -
  have len: "length mat0 = N" using assms by (simp add: is_array2_def)
  have ne: "augmented N mat0 p \<noteq> []"
    using augmented_length [of N mat0 p] by auto
  have "last (augmented N mat0 p) = augmented N mat0 p ! N"
    using ne by (simp add: last_conv_nth augmented_length)
  then have "butlast (last (augmented N mat0 p)) = map (leak p) (map fl_sum mat0)"
    using augmented_last_row [OF len, of p] by simp
  moreover have "matrix_with_void mat0 p = Inr (augmented N mat0 p)"
    using matrix_with_void_square [OF assms] by (simp add: augmented_def)
  ultimately show ?thesis by (simp add: void_coupling_def)
qed

lemma leak_exact: "p \<noteq> 1 \<Longrightarrow> leak (Fin p) (Fin d) = Fin (leak_rounded (\<lambda>x. x) p d)"
  by (simp add: leak_def leak_rounded_def)

lemma leak_rounded_mono:
  assumes "mono rnd" and "rnd 0 = 0" and "0 \<le> p1" and "p1 \<le> p2"
    and "0 < rnd (1 - p2)" and "0 \<le> d"
  shows "leak_rounded rnd p1 d \<le> leak_rounded rnd p2 d"
proof -
  have "p1 * d \<le> p2 * d" using assms(4,6) by (rule mult_right_mono)
  then have num: "rnd (p1 * d) \<le> rnd (p2 * d)" using assms(1) by (rule monoD [rotated])
  have "0 \<le> p2 * d" using assms(3,4,6) by simp
  then have "rnd 0 \<le> rnd (p2 * d)" using assms(1) by (rule monoD [rotated])
  then have nonneg: "0 \<le> rnd (p2 * d)" using assms(2) by simp
  have "1 - p2 \<le> 1 - p1" using assms(4) by simp
  then have den: "rnd (1 - p2) \<le> rnd (1 - p1)" using assms(1) by (rule monoD [rotated])
  have "rnd (p1 * d) / rnd (1 - p1) \<le> rnd (p2 * d) / rnd (1 - p2)"
    using nonneg num assms(5) den by (rule frac_le)
  then show ?thesis
    unfolding leak_rounded_def using assms(1) by (rule monoD [rotated])
qed

lemma quarters_mono: "mono (\<lambda>x::real. real_of_int \<lfloor>x * 4\<rfloor> / 4)"
proof (rule monoI)
  fix x y :: real
  assume "x \<le> y"
  then have "\<lfloor>x * 4\<rfloor> \<le> \<lfloor>y * 4\<rfloor>" by (intro floor_mono) simp
  then show "real_of_int \<lfloor>x * 4\<rfloor> / 4 \<le> real_of_int \<lfloor>y * 4\<rfloor> / 4" by simp
qed

lemmas augmenter_defs = matrix_with_void_def broadcast_to_def ncols_def set_block_def
  set_row_init_def set_col_init_def zeros2_def leak_def fl_sum_def Let_def

section \<open>The loops of the solver as sums\<close>

lemma fold_update_same:
  "j < length T \<Longrightarrow>
   fold (\<lambda>i T. T[j := fadd (T ! j) (trm i j)]) js T
     = T[j := fold (\<lambda>i t. fadd t (trm i j)) js (T ! j)]"
  by (induction js arbitrary: T) simp_all

lemma accumulate_prefix:
  "n \<le> length T \<Longrightarrow>
   fold (\<lambda>j T. fold (\<lambda>i T. T[j := fadd (T ! j) (trm i j)]) js T) [0..<n] T
     = map (\<lambda>j. fold (\<lambda>i t. fadd t (trm i j)) js (T ! j)) [0..<n] @ drop n T"
proof (induction n)
  case 0
  then show ?case by simp
next
  case (Suc n)
  let ?P = "map (\<lambda>j. fold (\<lambda>i t. fadd t (trm i j)) js (T ! j)) [0..<n]"
  have n: "n < length T" using Suc.prems by simp
  have dr: "drop n T = T ! n # drop (Suc n) T"
    using n by (simp add: Cons_nth_drop_Suc)
  have "fold (\<lambda>j T. fold (\<lambda>i T. T[j := fadd (T ! j) (trm i j)]) js T) [0..<Suc n] T
        = fold (\<lambda>i T. T[n := fadd (T ! n) (trm i n)]) js (?P @ drop n T)"
    using Suc by simp
  also have "\<dots> = (?P @ drop n T)[n := fold (\<lambda>i t. fadd t (trm i n)) js ((?P @ drop n T) ! n)]"
    using n by (intro fold_update_same) simp
  also have "\<dots> = ?P @ fold (\<lambda>i t. fadd t (trm i n)) js (T ! n) # drop (Suc n) T"
    by (simp add: dr list_update_append nth_append)
  finally show ?case by simp
qed

lemma accumulate_zeros:
  "accumulate trm N (replicate N (Fin 0))
     = map (\<lambda>j. fold (\<lambda>i t. fadd t (trm i j)) [1..<N] (Fin 0)) [0..<N]"
proof -
  have "accumulate trm N (replicate N (Fin 0))
        = map (\<lambda>j. fold (\<lambda>i t. fadd t (trm i j)) [1..<N] (replicate N (Fin 0) ! j)) [0..<N]
          @ drop N (replicate N (Fin 0))"
    unfolding accumulate_def by (rule accumulate_prefix) simp
  then show ?thesis by simp
qed

lemma fold_fadd_fin:
  "(\<And>i. i \<in> set js \<Longrightarrow> trm i = Fin (f i)) \<Longrightarrow>
   fold (\<lambda>i t. fadd t (trm i)) js (Fin a) = Fin (a + (\<Sum>i\<leftarrow>js. f i))"
  by (induction js arbitrary: a) (simp_all add: add.assoc)

lemma fold_fadd_NonFin: "fold (\<lambda>i t. fadd t (trm i)) js NonFin = NonFin"
  by (induction js) simp_all

lemma fadd_NonFin_right: "fadd t NonFin = NonFin"
  by (cases t) simp_all

lemma fold_fadd_poisoned:
  "i0 \<in> set js \<Longrightarrow> trm i0 = NonFin \<Longrightarrow> fold (\<lambda>i t. fadd t (trm i)) js t = NonFin"
proof (induction js arbitrary: t)
  case Nil
  then show ?case by simp
next
  case (Cons i js)
  show ?case
  proof (cases "i = i0")
    case True
    then show ?thesis using Cons.prems by (simp add: fadd_NonFin_right fold_fadd_NonFin)
  next
    case False
    then show ?thesis using Cons by simp
  qed
qed

section \<open>The solver on a square finite matrix\<close>

lemma fl_sum_Fin: "fl_sum (map Fin xs) = Fin (sum_list xs)"
proof -
  have "list_all is_fin (map Fin xs)" by (simp add: list_all_length)
  then show ?thesis using fl_sum_fin [of "map Fin xs"] by (simp add: comp_def)
qed

lemma row_sums_fin:
  assumes "all_fin A"
  shows "map fl_sum A = map Fin (degrees A)"
  using assms by (simp add: all_fin_def degrees_def list_all_iff fl_sum_fin)

lemma total_weight_fin:
  assumes "all_fin A"
  shows "fdiv (fl_sum (map fl_sum A)) (Fin 2) = Fin (total_weight A)"
  by (simp add: row_sums_fin [OF assms] fl_sum_Fin total_weight_def)

lemma is_fin_fsub: "is_fin x \<Longrightarrow> is_fin y \<Longrightarrow> is_fin (fsub x y)"
  by (cases x; cases y) simp_all

lemma row_sub_fin:
  "list_all is_fin xs \<Longrightarrow> list_all is_fin ys \<Longrightarrow> list_all is_fin (map2 fsub xs ys)"
proof (induction xs arbitrary: ys)
  case Nil
  then show ?case by simp
next
  case (Cons x xs)
  then show ?case by (cases ys) (simp_all add: is_fin_fsub)
qed

lemma mat_sub_fin: "all_fin X \<Longrightarrow> all_fin Y \<Longrightarrow> all_fin (mat_sub X Y)"
  unfolding all_fin_def mat_sub_def
proof (induction X arbitrary: Y)
  case Nil
  then show ?case by simp
next
  case (Cons x X)
  then show ?case by (cases Y) (simp_all add: row_sub_fin)
qed

lemma np_diag_fin: "list_all is_fin d \<Longrightarrow> all_fin (np_diag d)"
  by (simp add: all_fin_def np_diag_def list_all_length)

lemma laplacian_square:
  assumes "is_array2 N N A"
  shows "laplacian A = Some (mat_sub (np_diag (map fl_sum A)) A)"
proof -
  have "length A = N" using assms by (simp add: is_array2_def)
  then show ?thesis using broadcast_square [OF assms] by (simp add: laplacian_def)
qed

lemma laplacian_fin:
  assumes "is_array2 N N A" and "all_fin A"
  shows "all_fin (mat_sub (np_diag (map fl_sum A)) A)"
proof -
  have "list_all is_fin (map fl_sum A)"
    by (simp add: row_sums_fin [OF assms(2)] list_all_length)
  then show ?thesis using assms(2) by (intro mat_sub_fin np_diag_fin)
qed

lemma GMFPT_theory_square:
  assumes "is_array2 N N A" and "all_fin A" and "solver_spectrum eig argsort A = (l, v)"
  shows "GMFPT_theory eig argsort A weighted =
           (if \<not> weighted then
              if N = 1 then Inl ZeroDivisionError
              else Inr (map (fmul (Fin (real N / (real N - 1))))
                         (accumulate (term_unweighted (Fin (total_weight A)) l v
                                        (np_dot v (map Fin (degrees A)))) N (replicate N (Fin 0))))
            else Inr (map (\<lambda>t. fdiv t (fmul (Fin 2) (Fin (total_weight A))))
                       (accumulate (term_weighted (Fin (total_weight A)) l v
                                      (np_dot v (map Fin (degrees A)))) N (replicate N (Fin 0)))))"
proof -
  have len: "length A = N" using assms(1) by (simp add: is_array2_def)
  have rs: "map fl_sum A = map Fin (degrees A)" by (rule row_sums_fin [OF assms(2)])
  have lap: "laplacian A = Some (mat_sub (np_diag (map Fin (degrees A))) A)"
    using laplacian_square [OF assms(1)] by (simp add: rs)
  have fin: "all_fin (mat_sub (np_diag (map Fin (degrees A))) A)"
    using laplacian_fin [OF assms(1,2)] by (simp add: rs)
  have sp: "sorted_spectrum eig argsort
              (map (map the_fin) (mat_sub (np_diag (map Fin (degrees A))) A)) = (l, v)"
    using assms(3) by (simp add: solver_spectrum_def lap)
  have E: "fdiv (fl_sum (map Fin (degrees A))) (Fin 2) = Fin (total_weight A)"
    using total_weight_fin [OF assms(2)] by (simp add: rs)
  have one: "real N - 1 = 0 \<longleftrightarrow> N = 1" by auto
  show ?thesis
    unfolding GMFPT_theory_def Let_def
    by (simp only: rs lap option.case fin E sp len one not_True_eq_False if_False prod.case)
qed

lemma zip_products:
  "map2 (\<lambda>x y. fmul (Fin x) y) xs (map Fin ys) = map Fin (map2 (*) xs ys)"
proof (induction xs arbitrary: ys)
  case Nil
  then show ?case by simp
next
  case (Cons x xs)
  then show ?case by (cases ys) simp_all
qed

lemma sum_products:
  assumes "length xs = length ys"
  shows "sum_list (map2 (*) xs ys) = (\<Sum>k\<leftarrow>[0..<length ys]. xs ! k * ys ! k)"
proof -
  have "map2 (*) xs ys = map (\<lambda>k. xs ! k * ys ! k) [0..<length ys]"
    using assms by (intro nth_equalityI) simp_all
  then show ?thesis by simp
qed

lemma np_dot_fin:
  assumes "i < length v" and "length (v ! i) = length d"
  shows "np_dot v (map Fin d) ! i = Fin (spec_dv v d i)"
proof -
  have "np_dot v (map Fin d) ! i = fl_sum (map2 (\<lambda>x y. fmul (Fin x) y) (v ! i) (map Fin d))"
    using assms(1) by (simp add: np_dot_def)
  also have "\<dots> = Fin (sum_list (map2 (*) (v ! i) d))"
    by (simp only: zip_products fl_sum_Fin)
  also have "\<dots> = Fin (spec_dv v d i)"
    by (simp only: sum_products [OF assms(2)] spec_dv_def)
  finally show ?thesis .
qed

lemma term_unweighted_fin:
  assumes "l ! i \<noteq> 0" and "dv ! i = Fin x"
  shows "term_unweighted (Fin E) l v dv i j
           = Fin ((1 / l ! i) * (2 * E * (v ! i ! j)\<^sup>2 - v ! i ! j * x))"
  using assms by (simp add: term_unweighted_def)

lemma term_weighted_fin:
  assumes "l ! i \<noteq> 0" and "dv ! i = Fin x"
  shows "term_weighted (Fin E) l v dv i j
           = Fin ((1 / l ! i) * ((2 * E)\<^sup>2 * (v ! i ! j)\<^sup>2 - 4 * E * v ! i ! j * (v ! i ! j * x)
                                 - (v ! i ! j * x)\<^sup>2))"
  using assms by (simp add: term_weighted_def Let_def power2_eq_square algebra_simps)

lemma degrees_length: "length (degrees A) = length A"
  by (simp add: degrees_def)

lemma retained_dv:
  assumes "is_array2 N N v" and "length A = N" and "i < N"
  shows "np_dot v (map Fin (degrees A)) ! i = Fin (spec_dv v (degrees A) i)"
proof -
  have "i < length v" using assms(1,3) by (simp add: is_array2_def)
  moreover have "length (v ! i) = length (degrees A)"
    using array2_row [OF assms(1,3)] assms(2) by (simp add: degrees_length)
  ultimately show ?thesis by (rule np_dot_fin)
qed

lemma unweighted_sum:
  assumes "is_array2 N N v" and "length A = N" and "list_all (\<lambda>i. l ! i \<noteq> 0) [1..<N]"
  shows "fold (\<lambda>i t. fadd t (term_unweighted (Fin E) l v (np_dot v (map Fin (degrees A))) i j))
              [1..<N] (Fin 0)
         = Fin (\<Sum>i\<leftarrow>[1..<N]. (1 / l ! i)
                  * (2 * E * (v ! i ! j)\<^sup>2 - v ! i ! j * spec_dv v (degrees A) i))"
proof -
  have "term_unweighted (Fin E) l v (np_dot v (map Fin (degrees A))) i j
        = Fin ((1 / l ! i) * (2 * E * (v ! i ! j)\<^sup>2 - v ! i ! j * spec_dv v (degrees A) i))"
    if "i \<in> set [1..<N]" for i
  proof -
    have "i < N" using that by simp
    moreover have "l ! i \<noteq> 0" using assms(3) that by (simp add: list_all_iff)
    ultimately show ?thesis
      using retained_dv [OF assms(1,2)] by (simp add: term_unweighted_fin)
  qed
  then show ?thesis
    using fold_fadd_fin [of "[1..<N]"
        "\<lambda>i. term_unweighted (Fin E) l v (np_dot v (map Fin (degrees A))) i j"
        "\<lambda>i. (1 / l ! i) * (2 * E * (v ! i ! j)\<^sup>2 - v ! i ! j * spec_dv v (degrees A) i)" 0]
    by simp
qed

lemma weighted_sum:
  assumes "is_array2 N N v" and "length A = N" and "list_all (\<lambda>i. l ! i \<noteq> 0) [1..<N]"
  shows "fold (\<lambda>i t. fadd t (term_weighted (Fin E) l v (np_dot v (map Fin (degrees A))) i j))
              [1..<N] (Fin 0)
         = Fin (\<Sum>i\<leftarrow>[1..<N]. (1 / l ! i)
                  * ((2 * E)\<^sup>2 * (v ! i ! j)\<^sup>2
                     - 4 * E * v ! i ! j * (v ! i ! j * spec_dv v (degrees A) i)
                     - (v ! i ! j * spec_dv v (degrees A) i)\<^sup>2))"
proof -
  have "term_weighted (Fin E) l v (np_dot v (map Fin (degrees A))) i j
        = Fin ((1 / l ! i) * ((2 * E)\<^sup>2 * (v ! i ! j)\<^sup>2
                 - 4 * E * v ! i ! j * (v ! i ! j * spec_dv v (degrees A) i)
                 - (v ! i ! j * spec_dv v (degrees A) i)\<^sup>2))"
    if "i \<in> set [1..<N]" for i
  proof -
    have "i < N" using that by simp
    moreover have "l ! i \<noteq> 0" using assms(3) that by (simp add: list_all_iff)
    ultimately show ?thesis
      using retained_dv [OF assms(1,2)] by (simp add: term_weighted_fin)
  qed
  then show ?thesis
    using fold_fadd_fin [of "[1..<N]"
        "\<lambda>i. term_weighted (Fin E) l v (np_dot v (map Fin (degrees A))) i j"
        "\<lambda>i. (1 / l ! i) * ((2 * E)\<^sup>2 * (v ! i ! j)\<^sup>2
                 - 4 * E * v ! i ! j * (v ! i ! j * spec_dv v (degrees A) i)
                 - (v ! i ! j * spec_dv v (degrees A) i)\<^sup>2)" 0]
    by simp
qed

lemma unweighted_value:
  assumes "is_array2 N N A" and "all_fin A" and "2 \<le> N"
    and "solver_spectrum eig argsort A = (l, v)"
    and "is_array2 N N v"
    and "list_all (\<lambda>i. l ! i \<noteq> 0) [1..<N]"
  shows "GMFPT_theory eig argsort A False
           = Inr (map (\<lambda>j. Fin (spec_unweighted N (total_weight A) l v (degrees A) j)) [0..<N])"
proof -
  have len: "length A = N" using assms(1) by (simp add: is_array2_def)
  have N: "N \<noteq> 1" using assms(3) by simp
  have "GMFPT_theory eig argsort A False
        = Inr (map (fmul (Fin (real N / (real N - 1))))
                (accumulate (term_unweighted (Fin (total_weight A)) l v
                               (np_dot v (map Fin (degrees A)))) N (replicate N (Fin 0))))"
    using GMFPT_theory_square [OF assms(1,2,4), of False] N by simp
  also have "accumulate (term_unweighted (Fin (total_weight A)) l v
                           (np_dot v (map Fin (degrees A)))) N (replicate N (Fin 0))
             = map (\<lambda>j. Fin (\<Sum>i\<leftarrow>[1..<N]. (1 / l ! i)
                     * (2 * total_weight A * (v ! i ! j)\<^sup>2
                        - v ! i ! j * spec_dv v (degrees A) i))) [0..<N]"
    by (simp only: accumulate_zeros unweighted_sum [OF assms(5) len assms(6)])
  finally show ?thesis by (simp add: spec_unweighted_def comp_def)
qed

lemma weighted_value:
  assumes "is_array2 N N A" and "all_fin A"
    and "solver_spectrum eig argsort A = (l, v)"
    and "is_array2 N N v"
    and "list_all (\<lambda>i. l ! i \<noteq> 0) [1..<N]"
    and "total_weight A \<noteq> 0"
  shows "GMFPT_theory eig argsort A True
           = Inr (map (\<lambda>j. Fin (spec_weighted_dvi N (total_weight A) l v (degrees A) j)) [0..<N])"
proof -
  have len: "length A = N" using assms(1) by (simp add: is_array2_def)
  have "GMFPT_theory eig argsort A True
        = Inr (map (\<lambda>t. fdiv t (fmul (Fin 2) (Fin (total_weight A))))
                (accumulate (term_weighted (Fin (total_weight A)) l v
                               (np_dot v (map Fin (degrees A)))) N (replicate N (Fin 0))))"
    using GMFPT_theory_square [OF assms(1,2,3), of True] by simp
  also have "accumulate (term_weighted (Fin (total_weight A)) l v
                           (np_dot v (map Fin (degrees A)))) N (replicate N (Fin 0))
             = map (\<lambda>j. Fin (\<Sum>i\<leftarrow>[1..<N]. (1 / l ! i)
                     * ((2 * total_weight A)\<^sup>2 * (v ! i ! j)\<^sup>2
                        - 4 * total_weight A * v ! i ! j * (v ! i ! j * spec_dv v (degrees A) i)
                        - (v ! i ! j * spec_dv v (degrees A) i)\<^sup>2))) [0..<N]"
    by (simp only: accumulate_zeros weighted_sum [OF assms(4) len assms(5)])
  finally show ?thesis using assms(6) by (simp add: spec_weighted_dvi_def comp_def)
qed

lemma term_unweighted_zero: "l ! i = 0 \<Longrightarrow> term_unweighted E l v dv i j = NonFin"
  by (simp add: term_unweighted_def)

lemma term_weighted_zero: "l ! i = 0 \<Longrightarrow> term_weighted E l v dv i j = NonFin"
  by (simp add: term_weighted_def Let_def)

lemma accumulate_length: "length (accumulate trm N (replicate N (Fin 0))) = N"
  by (simp add: accumulate_zeros)

lemma accumulate_poisoned:
  assumes "i0 \<in> set [1..<N]" and "\<And>j. trm i0 j = NonFin"
  shows "accumulate trm N (replicate N (Fin 0)) = replicate N NonFin"
proof -
  have "fold (\<lambda>i t. fadd t (trm i j)) [1..<N] (Fin 0) = NonFin" for j
    using assms(1) assms(2) [of j] by (rule fold_fadd_poisoned [where trm = "\<lambda>i. trm i j"])
  then show ?thesis by (simp add: accumulate_zeros map_replicate_const)
qed

lemma degenerate_value:
  assumes "is_array2 N N A" and "all_fin A" and "weighted \<or> N \<noteq> 1"
    and "solver_spectrum eig argsort A = (l, v)"
  shows "\<exists>T. GMFPT_theory eig argsort A weighted = Inr T \<and> length T = N
           \<and> (\<not> list_all (\<lambda>i. l ! i \<noteq> 0) [1..<N] \<longrightarrow> T = replicate N NonFin)"
proof (cases weighted)
  case True
  let ?acc = "accumulate (term_weighted (Fin (total_weight A)) l v
                (np_dot v (map Fin (degrees A)))) N (replicate N (Fin 0))"
  let ?T = "map (\<lambda>t. fdiv t (fmul (Fin 2) (Fin (total_weight A)))) ?acc"
  have res: "GMFPT_theory eig argsort A weighted = Inr ?T"
    using GMFPT_theory_square [OF assms(1,2,4), of True] True by simp
  have len: "length ?T = N" by (simp add: accumulate_length)
  have "?T = replicate N NonFin" if "\<not> list_all (\<lambda>i. l ! i \<noteq> 0) [1..<N]"
  proof -
    from that obtain i0 where i0: "i0 \<in> set [1..<N]" "l ! i0 = 0"
      by (auto simp: list_all_iff)
    have "?acc = replicate N NonFin"
      using i0(1) by (rule accumulate_poisoned) (simp add: term_weighted_zero i0(2))
    then show ?thesis by simp
  qed
  with res len show ?thesis by blast
next
  case False
  let ?acc = "accumulate (term_unweighted (Fin (total_weight A)) l v
                (np_dot v (map Fin (degrees A)))) N (replicate N (Fin 0))"
  let ?T = "map (fmul (Fin (real N / (real N - 1)))) ?acc"
  have N: "N \<noteq> 1" using assms(3) False by simp
  have res: "GMFPT_theory eig argsort A weighted = Inr ?T"
    using GMFPT_theory_square [OF assms(1,2,4), of False] False N by simp
  have len: "length ?T = N" by (simp add: accumulate_length)
  have "?T = replicate N NonFin" if "\<not> list_all (\<lambda>i. l ! i \<noteq> 0) [1..<N]"
  proof -
    from that obtain i0 where i0: "i0 \<in> set [1..<N]" "l ! i0 = 0"
      by (auto simp: list_all_iff)
    have "?acc = replicate N NonFin"
      using i0(1) by (rule accumulate_poisoned) (simp add: term_unweighted_zero i0(2))
    then show ?thesis by simp
  qed
  with res len show ?thesis by blast
qed

lemma never_degenerate: "GMFPT_theory eig argsort A weighted \<noteq> Inl DegenerateSpectrum"
  by (auto simp: GMFPT_theory_def Let_def split: option.splits prod.splits if_splits)

section \<open>Scaling the weights\<close>

lemma scale_shape: "is_array2 N N A \<Longrightarrow> is_array2 N N (scale c A)"
  by (simp add: is_array2_def scale_def list_all_iff)

lemma is_fin_scaled: "is_fin x \<Longrightarrow> is_fin (fmul (Fin c) x)"
  by (cases x) simp_all

lemma the_fin_scaled: "is_fin x \<Longrightarrow> the_fin (fmul (Fin c) x) = c * the_fin x"
  by (cases x) simp_all

lemma scale_fin: "all_fin A \<Longrightarrow> all_fin (scale c A)"
  by (simp add: all_fin_def scale_def list_all_iff is_fin_scaled)

lemma sum_list_scaled: "list_all is_fin r \<Longrightarrow>
   sum_list (map (the_fin \<circ> fmul (Fin c)) r) = c * sum_list (map the_fin r)"
  by (induction r) (simp_all add: the_fin_scaled algebra_simps)

lemma degrees_scale: "all_fin A \<Longrightarrow> degrees (scale c A) = map ((*) c) (degrees A)"
  by (simp add: degrees_def scale_def all_fin_def list_all_iff sum_list_scaled)

lemma sum_list_const_mult: "sum_list (map ((*) c) xs) = c * sum_list (xs :: real list)"
  by (induction xs) (simp_all add: algebra_simps)

lemma total_weight_scale: "all_fin A \<Longrightarrow> total_weight (scale c A) = c * total_weight A"
  by (simp add: total_weight_def degrees_scale sum_list_const_mult)

lemma products_scaled:
  "sum_list (map2 (*) xs (map ((*) c) ys)) = c * sum_list (map2 (*) xs (ys :: real list))"
proof (induction xs arbitrary: ys)
  case Nil
  then show ?case by simp
next
  case (Cons x xs)
  then show ?case by (cases ys) (simp_all add: algebra_simps)
qed

lemma np_dot_value:
  "np_dot v (map Fin d) = map (\<lambda>row. Fin (sum_list (map2 (*) row d))) v"
  by (simp only: np_dot_def zip_products fl_sum_Fin)

lemma np_dot_scaled:
  assumes "i < length v"
  shows "np_dot v (map Fin d) ! i = Fin (sum_list (map2 (*) (v ! i) d))"
    and "np_dot v (map Fin (map ((*) c) d)) ! i = Fin (c * sum_list (map2 (*) (v ! i) d))"
  using assms by (simp_all only: np_dot_value products_scaled nth_map)

lemma term_unweighted_scale:
  assumes "c \<noteq> 0" and "i < length l" and "dv ! i = Fin x" and "dv' ! i = Fin (c * x)"
  shows "term_unweighted (Fin (c * E)) (map ((*) c) l) v dv' i j
         = term_unweighted (Fin E) l v dv i j"
  using assms by (simp add: term_unweighted_def field_simps)

lemma term_weighted_scale:
  assumes "c \<noteq> 0" and "i < length l" and "dv ! i = Fin x" and "dv' ! i = Fin (c * x)"
  shows "term_weighted (Fin (c * E)) (map ((*) c) l) v dv' i j
         = fmul (Fin c) (term_weighted (Fin E) l v dv i j)"
  using assms by (simp add: term_weighted_def Let_def field_simps)

lemma fadd_scaled: "fadd (fmul (Fin c) t) (fmul (Fin c) x) = fmul (Fin c) (fadd t x)"
  by (cases t; cases x) (simp_all add: algebra_simps)

lemma fold_scaled:
  "fold (\<lambda>i t. fadd t (fmul (Fin c) (trm i))) js (fmul (Fin c) t)
     = fmul (Fin c) (fold (\<lambda>i t. fadd t (trm i)) js t)"
  by (induction js arbitrary: t) (simp_all add: fadd_scaled)

lemma fdiv_scaled:
  "c \<noteq> 0 \<Longrightarrow> fdiv (fmul (Fin c) t) (Fin (2 * (c * E))) = fdiv t (Fin (2 * E))"
  by (cases t) simp_all

lemma accumulate_cong:
  assumes "\<And>i j. i \<in> set [1..<N] \<Longrightarrow> trm i j = trm' i j"
  shows "accumulate trm N (replicate N (Fin 0)) = accumulate trm' N (replicate N (Fin 0))"
proof -
  have "fold (\<lambda>i t. fadd t (trm i j)) [1..<N] (Fin 0) = fold (\<lambda>i t. fadd t (trm' i j)) [1..<N] (Fin 0)" for j
    using assms by (intro fold_cong) simp_all
  then show ?thesis by (simp only: accumulate_zeros)
qed

lemma accumulate_scaled:
  "accumulate (\<lambda>i j. fmul (Fin c) (trm i j)) N (replicate N (Fin 0))
     = map (fmul (Fin c)) (accumulate trm N (replicate N (Fin 0)))"
proof -
  have "fold (\<lambda>i t. fadd t (fmul (Fin c) (trm i j))) [1..<N] (Fin 0)
        = fmul (Fin c) (fold (\<lambda>i t. fadd t (trm i j)) [1..<N] (Fin 0))" for j
    using fold_scaled [of c "\<lambda>i. trm i j" "[1..<N]" "Fin 0"] by simp
  then show ?thesis by (simp add: accumulate_zeros comp_def)
qed

lemma scale_value:
  assumes "is_array2 N N A" and "all_fin A" and "c \<noteq> 0"
    and "solver_spectrum eig argsort A = (l, v)"
    and "solver_spectrum eig argsort (scale c A) = (map ((*) c) l, v)"
    and "length l = N" and "length v = N"
  shows "GMFPT_theory eig argsort (scale c A) weighted = GMFPT_theory eig argsort A weighted"
proof -
  let ?E = "total_weight A" and ?d = "degrees A"
  let ?dv = "np_dot v (map Fin ?d)" and ?dv' = "np_dot v (map Fin (map ((*) c) ?d))"
  let ?Z = "replicate N (Fin 0)"
  have dv: "?dv ! i = Fin (sum_list (map2 (*) (v ! i) ?d))"
       "?dv' ! i = Fin (c * sum_list (map2 (*) (v ! i) ?d))" if "i \<in> set [1..<N]" for i
  proof -
    have "i < length v" using that assms(7) by simp
    then show "?dv ! i = Fin (sum_list (map2 (*) (v ! i) ?d))"
      and "?dv' ! i = Fin (c * sum_list (map2 (*) (v ! i) ?d))"
      by (rule np_dot_scaled)+
  qed
  have un: "accumulate (term_unweighted (Fin (c * ?E)) (map ((*) c) l) v ?dv') N ?Z
            = accumulate (term_unweighted (Fin ?E) l v ?dv) N ?Z"
    using assms(3,6) dv by (intro accumulate_cong term_unweighted_scale) simp_all
  have "accumulate (term_weighted (Fin (c * ?E)) (map ((*) c) l) v ?dv') N ?Z
        = accumulate (\<lambda>i j. fmul (Fin c) (term_weighted (Fin ?E) l v ?dv i j)) N ?Z"
    using assms(3,6) dv by (intro accumulate_cong term_weighted_scale) simp_all
  then have we: "accumulate (term_weighted (Fin (c * ?E)) (map ((*) c) l) v ?dv') N ?Z
        = map (fmul (Fin c)) (accumulate (term_weighted (Fin ?E) l v ?dv) N ?Z)"
    by (simp only: accumulate_scaled)
  show ?thesis
    unfolding GMFPT_theory_square [OF scale_shape [OF assms(1)] scale_fin [OF assms(2)] assms(5)]
      GMFPT_theory_square [OF assms(1,2,4)]
      degrees_scale [OF assms(2)] total_weight_scale [OF assms(2)] un we
    using assms(3) by (simp add: fdiv_scaled comp_def)
qed

section \<open>The functions on the store and on values agree\<close>

text \<open>
  On a store the two functions compute what \<open>matrix_with_void\<close> and \<open>GMFPT_theory\<close>
  compute on values, and the store they return is the one they were given, followed by
  the arrays they allocated.
\<close>

lemma inner_h:
  "T < length h \<Longrightarrow> h ! T = Vec t \<Longrightarrow>
   fold (\<lambda>i h. h[T := Vec ((the_vec (h ! T))[j := fadd (the_vec (h ! T) ! j) (trm i j)])]) js h
     = h[T := Vec (fold (\<lambda>i t. t[j := fadd (t ! j) (trm i j)]) js t)]"
proof (induction js arbitrary: h t)
  case Nil
  then show ?case using list_update_id [of h T] by simp
next
  case (Cons i js)
  then show ?case by simp
qed

lemma outer_h:
  "T < length h \<Longrightarrow> h ! T = Vec t \<Longrightarrow>
   fold (\<lambda>j h. fold (\<lambda>i h. h[T := Vec ((the_vec (h ! T))[j := fadd (the_vec (h ! T) ! j) (trm i j)])])
                     is h) js h
     = h[T := Vec (fold (\<lambda>j t. fold (\<lambda>i t. t[j := fadd (t ! j) (trm i j)]) is t) js t)]"
proof (induction js arbitrary: h t)
  case Nil
  then show ?case using list_update_id [of h T] by simp
next
  case (Cons j js)
  then show ?case by (simp add: inner_h)
qed

lemma accumulate_h_eq:
  "T < length h \<Longrightarrow> h ! T = Vec t \<Longrightarrow>
   accumulate_h trm N T h = h[T := Vec (accumulate trm N t)]"
  unfolding accumulate_h_def accumulate_def by (rule outer_h)

lemma accumulate_h_fresh:
  "accumulate_h trm N (length h) (h @ [Vec t]) = h @ [Vec (accumulate trm N t)]"
  using accumulate_h_eq [of "length h" "h @ [Vec t]" t trm N] by simp

lemma matrix_with_void_h_char:
  assumes "a < length h" and "h ! a = Mat m0"
  shows "matrix_with_void_h h a p =
           (case matrix_with_void m0 p of
              Inl e \<Rightarrow> (Inl e, h @ [Mat (zeros2 (length m0 + 1) (length m0 + 1))])
            | Inr M \<Rightarrow> (Inr (length h), h @ [Mat M]))"
  using assms
  by (simp add: matrix_with_void_h_def matrix_with_void_def alloc_def Let_def nth_append
      split: option.split)

lemma GMFPT_theory_h_char:
  assumes "a < length h" and "h ! a = Mat A"
  shows "\<exists>g. snd (GMFPT_theory_h eig argsort h a w) = h @ g
           \<and> (case GMFPT_theory eig argsort A w of
                Inl e \<Rightarrow> fst (GMFPT_theory_h eig argsort h a w) = Inl e
              | Inr R \<Rightarrow> fst (GMFPT_theory_h eig argsort h a w) = Inr (length h + 1)
                         \<and> g ! 1 = Vec R \<and> length g = 2)"
  using assms
  by (auto simp: GMFPT_theory_h_def GMFPT_theory_def alloc_def Let_def accumulate_h_fresh nth_append
      split: option.split prod.split)

section \<open>Facts about the example inputs\<close>

lemma argsort_examples:
  "argsort_lex [3, 1, 0] = [2, 1, 0]"
  "argsort_lex [6, 2, 0] = [2, 1, 0]"
  "argsort_lex [2, 0, 0, 2] = [1, 2, 0, 3]"
  by (simp_all add: argsort_lex_def less_eq_prod_def)

lemma laplacian_path3: "laplacian path3 = Some (map (map Fin) lap_path3)"
  by (simp add: laplacian_def path3_def lap_path3_def broadcast_to_def ncols_def mat_sub_def
      np_diag_def fl_sum_def)

lemma laplacian_path3_doubled:
  "laplacian (scale 2 path3) = Some (map (map Fin) (map (map ((*) 2)) lap_path3))"
  by (simp add: laplacian_def scale_def path3_def lap_path3_def broadcast_to_def ncols_def
      mat_sub_def np_diag_def fl_sum_def)

lemma laplacian_two_edges: "laplacian two_edges = Some (map (map Fin) lap_two_edges)"
  by (simp add: laplacian_def two_edges_def lap_two_edges_def broadcast_to_def ncols_def
      mat_sub_def np_diag_def fl_sum_def)

lemma eig_tab_examples:
  "eig_tab lap_path3 = ([3, 1, 0], vecs_path3)"
  "eig_tab (map (map ((*) 2)) lap_path3) = ([6, 2, 0], vecs_path3)"
  "eig_tab lap_two_edges = ([2, 0, 0, 2], vecs_two_edges)"
  by (simp_all add: eig_tab_def spectra_def lap_path3_def lap_two_edges_def)

text \<open>Every entry of the table is an orthonormal eigendecomposition of its matrix.\<close>

lemma eigen_ok_path3: "eigen_ok lap_path3 ([3, 1, 0], vecs_path3)"
  apply (simp add: eigen_ok_def Let_def lap_path3_def vecs_path3_def is_array2_def column_def
      dotc_def)
  apply (simp add: field_simps flip: of_real_mult of_real_add of_real_divide)
  done

lemma eigen_ok_path3_doubled: "eigen_ok (map (map ((*) 2)) lap_path3) ([6, 2, 0], vecs_path3)"
  apply (simp add: eigen_ok_def Let_def lap_path3_def vecs_path3_def is_array2_def column_def
      dotc_def)
  apply (simp add: field_simps flip: of_real_mult of_real_add of_real_divide)
  done

lemma eigen_ok_two_edges: "eigen_ok lap_two_edges ([2, 0, 0, 2], vecs_two_edges)"
  by (simp add: eigen_ok_def Let_def lap_two_edges_def vecs_two_edges_def is_array2_def
      column_def dotc_def)

lemma spectra_genuine: "list_all (\<lambda>(L, r). eigen_ok L r) spectra"
  by (simp add: spectra_def eigen_ok_path3 eigen_ok_path3_doubled eigen_ok_two_edges)

lemma solver_spectrum_real:
  assumes "laplacian A = Some (map (map Fin) R)"
  shows "solver_spectrum eig argsort A = sorted_spectrum eig argsort R"
proof -
  have "map (map the_fin) (map (map Fin) R) = R" by (simp add: comp_def)
  then show ?thesis by (simp only: solver_spectrum_def assms option.case)
qed

lemma spectrum_path3: "solver_spectrum eig_tab argsort_lex path3 = ([0, 1, 3], modes_path3)"
  unfolding solver_spectrum_real [OF laplacian_path3]
  by (simp add: sorted_spectrum_def eig_tab_examples argsort_examples Let_def vecs_path3_def
      modes_path3_def)

lemma spectrum_path3_doubled:
  "solver_spectrum eig_tab argsort_lex (scale 2 path3) = ([0, 2, 6], modes_path3)"
  unfolding solver_spectrum_real [OF laplacian_path3_doubled]
  by (simp add: sorted_spectrum_def eig_tab_examples argsort_examples Let_def vecs_path3_def
      modes_path3_def)

lemma spectrum_two_edges:
  "solver_spectrum eig_tab argsort_lex two_edges = ([0, 0, 2, 2], modes_two_edges)"
  unfolding solver_spectrum_real [OF laplacian_two_edges]
  by (simp add: sorted_spectrum_def eig_tab_examples argsort_examples Let_def
      vecs_two_edges_def modes_two_edges_def)

lemma path3_shape: "is_array2 3 3 path3" "all_fin path3"
  by (simp_all add: is_array2_def all_fin_def path3_def)

lemma two_edges_shape: "is_array2 4 4 two_edges" "all_fin two_edges"
  by (simp_all add: is_array2_def all_fin_def two_edges_def)

lemma path3_weights: "degrees path3 = [1, 2, 1]" "total_weight path3 = 2"
  by (simp_all add: degrees_def total_weight_def path3_def)

lemma two_edges_weights: "degrees two_edges = [1, 1, 1, 1]" "total_weight two_edges = 2"
  by (simp_all add: degrees_def total_weight_def two_edges_def)

lemma modes_path3_shape: "is_array2 3 3 modes_path3"
  by (simp add: is_array2_def modes_path3_def)

lemma modes_path3_flipped_shape: "is_array2 3 3 (map (map uminus) modes_path3)"
  by (simp add: is_array2_def modes_path3_def)

lemma eigen_ok_path3_flipped: "eigen_ok lap_path3 (flip_signs eig_tab lap_path3)"
  apply (simp add: flip_signs_def eig_tab_examples)
  apply (simp add: eigen_ok_def Let_def lap_path3_def vecs_path3_def is_array2_def column_def
      dotc_def)
  apply (simp add: field_simps flip: of_real_mult of_real_add of_real_divide of_real_minus)
  done

lemma spectrum_path3_flipped:
  "solver_spectrum (flip_signs eig_tab) argsort_lex path3
     = ([0, 1, 3], map (map uminus) modes_path3)"
  unfolding solver_spectrum_real [OF laplacian_path3]
  by (simp add: sorted_spectrum_def flip_signs_def eig_tab_examples argsort_examples Let_def
      vecs_path3_def modes_path3_def)

lemma retained_path3: "list_all (\<lambda>i. [0, 1, 3 :: real] ! i \<noteq> 0) [1..<3]"
  by (simp add: upt_rec)

lemma retained_path3_doubled: "list_all (\<lambda>i. [0, 2, 6 :: real] ! i \<noteq> 0) [1..<3]"
  by (simp add: upt_rec)

lemma path3_doubled_shape: "is_array2 3 3 (scale 2 path3)" "all_fin (scale 2 path3)"
  by (simp_all add: is_array2_def all_fin_def path3_def scale_def)

lemma path3_doubled_weights:
  "degrees (scale 2 path3) = [2, 4, 2]" "total_weight (scale 2 path3) = 4"
  by (simp_all add: degrees_def total_weight_def path3_def scale_def)

lemma spec_unweighted_path3:
  "map (\<lambda>j. Fin (spec_unweighted 3 2 [0, 1, 3] modes_path3 [1, 2, 1] j)) [0..<3]
     = [Fin (7 / 2), Fin 1, Fin (7 / 2)]"
  by (simp add: spec_unweighted_def spec_dv_def modes_path3_def upt_rec power_divide)

lemma spec_unweighted_path3_doubled:
  "map (\<lambda>j. Fin (spec_unweighted 3 4 [0, 2, 6] modes_path3 [2, 4, 2] j)) [0..<3]
     = [Fin (7 / 2), Fin 1, Fin (7 / 2)]"
  by (simp add: spec_unweighted_def spec_dv_def modes_path3_def upt_rec power_divide)

lemma spec_weighted_dvi_path3:
  "map (\<lambda>j. Fin (spec_weighted_dvi 3 2 [0, 1, 3] modes_path3 [1, 2, 1] j)) [0..<3]
     = [Fin (239 / 108 - 2 / (9 * sqrt 6)), Fin (23 / 27 - 8 / (9 * sqrt 6)),
        Fin (239 / 108 - 2 / (9 * sqrt 6))]"
  by (simp add: spec_weighted_dvi_def spec_dv_def modes_path3_def upt_rec power_divide
      field_simps)

lemma spec_weighted_dvi_path3_flipped:
  "map (\<lambda>j. Fin (spec_weighted_dvi 3 2 [0, 1, 3] (map (map uminus) modes_path3) [1, 2, 1] j))
       [0..<3]
     = [Fin (239 / 108 + 2 / (9 * sqrt 6)), Fin (23 / 27 + 8 / (9 * sqrt 6)),
        Fin (239 / 108 + 2 / (9 * sqrt 6))]"
  by (simp add: spec_weighted_dvi_def spec_dv_def modes_path3_def upt_rec power_divide
      field_simps)

lemma spec_unweighted_path3_flipped:
  "map (\<lambda>j. Fin (spec_unweighted 3 2 [0, 1, 3] (map (map uminus) modes_path3) [1, 2, 1] j))
       [0..<3]
     = [Fin (7 / 2), Fin 1, Fin (7 / 2)]"
  by (simp add: spec_unweighted_def spec_dv_def modes_path3_def upt_rec power_divide)

lemma spec_weighted_path3:
  "map (\<lambda>j. Fin (spec_weighted 3 2 [0, 1, 3] modes_path3 [1, 2, 1] j)) [0..<3]
     = [Fin (43 / 18), Fin (7 / 18), Fin (43 / 18)]"
  by (simp add: spec_weighted_def spec_dv_def modes_path3_def upt_rec power_divide)

lemma path3_unweighted:
  "GMFPT_theory eig_tab argsort_lex path3 False = Inr [Fin (7 / 2), Fin 1, Fin (7 / 2)]"
  using unweighted_value [OF path3_shape _ spectrum_path3 modes_path3_shape retained_path3]
  by (simp only: path3_weights spec_unweighted_path3)

lemma path3_doubled_unweighted:
  "GMFPT_theory eig_tab argsort_lex (scale 2 path3) False
     = Inr [Fin (7 / 2), Fin 1, Fin (7 / 2)]"
  using unweighted_value [OF path3_doubled_shape _ spectrum_path3_doubled modes_path3_shape
      retained_path3_doubled]
  by (simp only: path3_doubled_weights spec_unweighted_path3_doubled)

lemma path3_weighted:
  "GMFPT_theory eig_tab argsort_lex path3 True
     = Inr [Fin (239 / 108 - 2 / (9 * sqrt 6)), Fin (23 / 27 - 8 / (9 * sqrt 6)),
            Fin (239 / 108 - 2 / (9 * sqrt 6))]"
  using weighted_value [OF path3_shape spectrum_path3 modes_path3_shape retained_path3]
  by (simp only: path3_weights spec_weighted_dvi_path3)

lemma path3_weighted_flipped:
  "GMFPT_theory (flip_signs eig_tab) argsort_lex path3 True
     = Inr [Fin (239 / 108 + 2 / (9 * sqrt 6)), Fin (23 / 27 + 8 / (9 * sqrt 6)),
            Fin (239 / 108 + 2 / (9 * sqrt 6))]"
  using weighted_value [OF path3_shape spectrum_path3_flipped modes_path3_flipped_shape
      retained_path3]
  by (simp only: path3_weights spec_weighted_dvi_path3_flipped)

lemma path3_unweighted_flipped:
  "GMFPT_theory (flip_signs eig_tab) argsort_lex path3 False
     = Inr [Fin (7 / 2), Fin 1, Fin (7 / 2)]"
  using unweighted_value [OF path3_shape _ spectrum_path3_flipped modes_path3_flipped_shape
      retained_path3]
  by (simp only: path3_weights spec_unweighted_path3_flipped)

lemma two_edges_value:
  "GMFPT_theory eig_tab argsort_lex two_edges weighted = Inr [NonFin, NonFin, NonFin, NonFin]"
proof -
  have "weighted \<or> (4::nat) \<noteq> 1" by simp
  from degenerate_value [OF two_edges_shape this spectrum_two_edges]
  show ?thesis by (auto simp: upt_rec numeral_eq_Suc)
qed

section \<open>Claims about the augmenter\<close>

text \<open>
  C2. For every square base matrix of size \<open>N\<close> and every \<open>p_void\<close> in the open interval
  \<open>(0,1)\<close>, \<open>matrix_with_void\<close> returns an \<open>(N+1) \<times> (N+1)\<close> matrix whose top-left
  \<open>N \<times> N\<close> block is the base unchanged, whose entries \<open>[i,N]\<close> and \<open>[N,i]\<close> are
  \<open>p_void \<cdot> degree(i) / (1 - p_void)\<close> for each original node \<open>i\<close> (the degree being the
  sum of row \<open>i\<close>; written out in real arithmetic where the row is finite), and whose
  entry \<open>[N,N]\<close> is 0.
\<close>

theorem augmenter_entries:
  assumes "is_array2 N N base" and "0 < p" and "p < 1"
  shows "\<exists>M. matrix_with_void base (Fin p) = Inr M
           \<and> is_array2 (N + 1) (N + 1) M
           \<and> map (take N) (take N M) = base
           \<and> (\<forall>i<N. M ! i ! N = fdiv (fmul (Fin p) (degree base i)) (Fin (1 - p))
                    \<and> M ! N ! i = fdiv (fmul (Fin p) (degree base i)) (Fin (1 - p)))
           \<and> (\<forall>i<N. list_all is_fin (base ! i) \<longrightarrow>
                    M ! i ! N = Fin (p * sum_list (map the_fin (base ! i)) / (1 - p)))
           \<and> M ! N ! N = Fin 0"
proof -
  have len: "length base = N" using assms(1) by (simp add: is_array2_def)
  have lk: "leak (Fin p) d = fdiv (fmul (Fin p) d) (Fin (1 - p))" for d
    by (simp add: leak_def)
  have fin: "augmented N base (Fin p) ! i ! N
             = Fin (p * sum_list (map the_fin (base ! i)) / (1 - p))"
    if "i < N" and "list_all is_fin (base ! i)" for i
    using that assms(3) augmented_col [OF assms(1) that(1), of "Fin p"]
    by (simp add: degree_def fl_sum_fin leak_fin)
  have "matrix_with_void base (Fin p) = Inr (augmented N base (Fin p))"
    using matrix_with_void_square [OF assms(1)] by (simp add: augmented_def)
  moreover have "is_array2 (N + 1) (N + 1) (augmented N base (Fin p))"
    by (rule augmented_array2 [OF assms(1)])
  moreover have "map (take N) (take N (augmented N base (Fin p))) = base"
    by (rule augmented_topleft [OF assms(1)])
  moreover have "\<forall>i<N. augmented N base (Fin p) ! i ! N
                          = fdiv (fmul (Fin p) (degree base i)) (Fin (1 - p))
                      \<and> augmented N base (Fin p) ! N ! i
                          = fdiv (fmul (Fin p) (degree base i)) (Fin (1 - p))"
    using augmented_col [OF assms(1)] augmented_bottom [OF len] lk by simp
  moreover have "\<forall>i<N. list_all is_fin (base ! i) \<longrightarrow>
                   augmented N base (Fin p) ! i ! N
                     = Fin (p * sum_list (map the_fin (base ! i)) / (1 - p))"
    using fin by simp
  moreover have "augmented N base (Fin p) ! N ! N = Fin 0"
    by (rule augmented_corner [OF len])
  ultimately show ?thesis by blast
qed

theorem augmenter_entries_witness:
  "is_array2 3 3 path3 \<and> (0::real) < 1 / 2 \<and> (1 / 2 ::real) < 1
   \<and> (\<exists>M. matrix_with_void path3 (Fin (1 / 2)) = Inr M
          \<and> is_array2 4 4 M \<and> map (take 3) (take 3 M) = path3
          \<and> M ! 1 ! 3 = Fin 2 \<and> M ! 3 ! 1 = Fin 2 \<and> M ! 3 ! 3 = Fin 0)"
proof -
  have sq: "is_array2 3 3 path3" by (simp add: is_array2_def path3_def)
  have deg: "degree path3 (Suc 0) = Fin 2" by (simp add: degree_def path3_def fl_sum_def)
  from augmenter_entries [OF sq, of "1 / 2"]
  obtain M where M: "matrix_with_void path3 (Fin (1 / 2)) = Inr M" "is_array2 (3 + 1) (3 + 1) M"
    "map (take 3) (take 3 M) = path3"
    "\<forall>i<3. M ! i ! 3 = fdiv (fmul (Fin (1 / 2)) (degree path3 i)) (Fin (1 - 1 / 2))
           \<and> M ! 3 ! i = fdiv (fmul (Fin (1 / 2)) (degree path3 i)) (Fin (1 - 1 / 2))"
    "M ! 3 ! 3 = Fin 0"
    by auto
  from M(4) have "M ! 1 ! 3 = Fin 2 \<and> M ! 3 ! 1 = Fin 2" by (simp add: deg)
  with sq M(1,2,3,5) show ?thesis by simp
qed

text \<open>
  C7. For every valid (square, symmetric, finite) base graph and every \<open>p_void\<close> in
  \<open>(0,1)\<close>, the augmented matrix is symmetric, all its entries are finite, and its
  top-left \<open>N \<times> N\<close> block equals the base matrix exactly.
\<close>

theorem augmenter_symmetric:
  assumes "is_array2 N N base" and "all_fin base" and "symmetric base"
    and "0 < p" and "p < 1"
  shows "\<exists>M. matrix_with_void base (Fin p) = Inr M
           \<and> symmetric M \<and> all_fin M \<and> map (take N) (take N M) = base"
proof -
  have "matrix_with_void base (Fin p) = Inr (augmented N base (Fin p))"
    using matrix_with_void_square [OF assms(1)] by (simp add: augmented_def)
  moreover have "symmetric (augmented N base (Fin p))"
    by (rule augmented_symmetric [OF assms(1,3)])
  moreover have "all_fin (augmented N base (Fin p))"
    using augmented_all_fin [OF assms(1,2)] assms(5) by simp
  moreover have "map (take N) (take N (augmented N base (Fin p))) = base"
    by (rule augmented_topleft [OF assms(1)])
  ultimately show ?thesis by blast
qed

theorem augmenter_symmetric_witness:
  "is_array2 3 3 path3 \<and> all_fin path3 \<and> symmetric path3
   \<and> (0::real) < 3 / 10 \<and> (3 / 10 ::real) < 1
   \<and> (\<exists>M. matrix_with_void path3 (Fin (3 / 10)) = Inr M
          \<and> symmetric M \<and> all_fin M \<and> map (take 3) (take 3 M) = path3)"
proof -
  have sq: "is_array2 3 3 path3" by (simp add: is_array2_def path3_def)
  have fin: "all_fin path3" by (simp add: all_fin_def path3_def)
  have sym: "symmetric path3"
    by (simp add: symmetric_def path3_def upt_rec [of 0] upt_rec [of 1] upt_rec [of 2])
  from augmenter_symmetric [OF sq fin sym, of "3 / 10"] sq fin sym show ?thesis by simp
qed

text \<open>
  C8, as stated: holding the base graph fixed, for every \<open>p1 < p2\<close> in \<open>(0,1)\<close> every
  entry of the void node's coupling vector with \<open>p2\<close> is strictly greater than the entry
  with \<open>p1\<close>. This fails at a node of degree 0: its coupling is 0 for every \<open>p_void\<close>.
  With the graph of an edge 0 - 1 and an isolated node 2, and \<open>p1 = 1/4\<close>, \<open>p2 = 1/2\<close>:
\<close>

theorem coupling_monotone_counterexample:
  "void_coupling (matrix_with_void edge_iso (Fin (1 / 4))) = [Fin (1 / 3), Fin (1 / 3), Fin 0]
   \<and> void_coupling (matrix_with_void edge_iso (Fin (1 / 2))) = [Fin 1, Fin 1, Fin 0]
   \<and> \<not> fl_lt (void_coupling (matrix_with_void edge_iso (Fin (1 / 4))) ! 2)
              (void_coupling (matrix_with_void edge_iso (Fin (1 / 2))) ! 2)"
  by (simp add: void_coupling_def augmenter_defs edge_iso_def)

text \<open>
  C8, amended: holding a square finite base graph fixed, for every \<open>p1 < p2\<close> in \<open>(0,1)\<close>
  the entry of the void node's coupling vector at every node of non-negative degree is,
  with \<open>p2\<close>, greater than or equal to the entry with \<open>p1\<close>. This holds in exact
  arithmetic, where the entry is \<open>p_void \<cdot> d / (1 - p_void)\<close>, and for every monotone
  rounding of the three operations that keeps 0 and leaves \<open>1 - p2\<close> positive, as the
  rounding of doubles does. It is not strict: the entries are equal at a node of degree 0,
  and a rounding can make the entries of two values of \<open>p_void\<close> coincide.
\<close>

theorem coupling_monotone:
  assumes "is_array2 N N base" and "all_fin base" and "i < N"
    and "degree base i = Fin d" and "0 \<le> d"
    and "0 < p1" and "p1 < p2" and "p2 < 1"
    and "mono rnd" and "rnd 0 = 0" and "0 < rnd (1 - p2)"
  shows "void_coupling (matrix_with_void base (Fin p1)) ! i = Fin (leak_rounded (\<lambda>x. x) p1 d)
       \<and> void_coupling (matrix_with_void base (Fin p2)) ! i = Fin (leak_rounded (\<lambda>x. x) p2 d)
       \<and> \<not> fl_lt (void_coupling (matrix_with_void base (Fin p2)) ! i)
                  (void_coupling (matrix_with_void base (Fin p1)) ! i)
       \<and> leak_rounded rnd p1 d \<le> leak_rounded rnd p2 d"
proof -
  have len: "length base = N" using assms(1) by (simp add: is_array2_def)
  have c: "void_coupling (matrix_with_void base (Fin p)) ! i = Fin (leak_rounded (\<lambda>x. x) p d)"
    if "p \<noteq> 1" for p
    using void_coupling_square [OF assms(1), of "Fin p"] assms(3,4) len that
    by (simp add: degree_def leak_exact)
  have p: "p1 \<noteq> 1" "p2 \<noteq> 1" "0 \<le> p1" "p1 \<le> p2" using assms(6,7,8) by simp_all
  have id: "mono (\<lambda>x::real. x)" "(\<lambda>x::real. x) 0 = 0" "0 < (\<lambda>x::real. x) (1 - p2)"
    using assms(8) by (simp_all add: mono_def)
  have exact: "leak_rounded (\<lambda>x. x) p1 d \<le> leak_rounded (\<lambda>x. x) p2 d"
    using id(1,2) p(3,4) id(3) assms(5) by (rule leak_rounded_mono)
  have rounded: "leak_rounded rnd p1 d \<le> leak_rounded rnd p2 d"
    using assms(9,10) p(3,4) assms(11,5) by (rule leak_rounded_mono)
  show ?thesis using exact rounded by (simp add: c p(1,2))
qed

theorem coupling_monotone_witness:
  "is_array2 3 3 edge_iso \<and> all_fin edge_iso \<and> (0::nat) < 3
   \<and> degree edge_iso 0 = Fin 1 \<and> (0::real) \<le> 1
   \<and> (0::real) < 3 / 10 \<and> (3 / 10 ::real) < 2 / 5 \<and> (2 / 5 ::real) < 1
   \<and> mono (\<lambda>x::real. real_of_int \<lfloor>x * 4\<rfloor> / 4)
   \<and> real_of_int \<lfloor>(0::real) * 4\<rfloor> / 4 = 0
   \<and> 0 < real_of_int \<lfloor>(1 - 2 / 5 ::real) * 4\<rfloor> / 4
   \<and> void_coupling (matrix_with_void edge_iso (Fin (3 / 10))) ! 0 = Fin (3 / 7)
   \<and> void_coupling (matrix_with_void edge_iso (Fin (2 / 5))) ! 0 = Fin (2 / 3)
   \<and> leak_rounded (\<lambda>x. real_of_int \<lfloor>x * 4\<rfloor> / 4) (3 / 10) 1 = 1 / 2
   \<and> leak_rounded (\<lambda>x. real_of_int \<lfloor>x * 4\<rfloor> / 4) (2 / 5) 1 = 1 / 2
   \<and> leak_rounded (\<lambda>x. real_of_int \<lfloor>x * 4\<rfloor> / 4) (3 / 10) 1
       \<le> leak_rounded (\<lambda>x. real_of_int \<lfloor>x * 4\<rfloor> / 4) (2 / 5) 1"
proof -
  have sq: "is_array2 3 3 edge_iso" by (simp add: is_array2_def edge_iso_def)
  have fin: "all_fin edge_iso" by (simp add: all_fin_def edge_iso_def)
  have deg: "degree edge_iso 0 = Fin 1"
    by (simp add: degree_def edge_iso_def fl_sum_def)
  have z: "real_of_int \<lfloor>(0::real) * 4\<rfloor> / 4 = 0" by simp
  have pos: "0 < real_of_int \<lfloor>(1 - 2 / 5 ::real) * 4\<rfloor> / 4" by simp
  have v1: "leak_rounded (\<lambda>x. real_of_int \<lfloor>x * 4\<rfloor> / 4) (3 / 10) 1 = 1 / 2"
    by (simp add: leak_rounded_def)
  have v2: "leak_rounded (\<lambda>x. real_of_int \<lfloor>x * 4\<rfloor> / 4) (2 / 5) 1 = 1 / 2"
    by (simp add: leak_rounded_def)
  from coupling_monotone [OF sq fin _ deg _ _ _ _ quarters_mono z pos, of "3 / 10"]
  have "void_coupling (matrix_with_void edge_iso (Fin (3 / 10))) ! 0
          = Fin (leak_rounded (\<lambda>x. x) (3 / 10) 1)
        \<and> void_coupling (matrix_with_void edge_iso (Fin (2 / 5))) ! 0
          = Fin (leak_rounded (\<lambda>x. x) (2 / 5) 1)
        \<and> leak_rounded (\<lambda>x. real_of_int \<lfloor>x * 4\<rfloor> / 4) (3 / 10) 1
            \<le> leak_rounded (\<lambda>x. real_of_int \<lfloor>x * 4\<rfloor> / 4) (2 / 5) 1"
    by simp
  then show ?thesis
    using sq fin deg quarters_mono pos v1 v2 by (simp add: leak_rounded_def)
qed

text \<open>
  C4, as stated: the augmenter fails with \<open>InvalidParameter\<close> whenever \<open>p_void\<close> is outside
  \<open>(0,1)\<close> or the base matrix is not symmetric or has negative weights. The code has no
  check: with \<open>p_void = 2\<close> it returns a matrix with negative couplings, and with
  \<open>p_void = 0\<close> and a base that is neither symmetric nor non-negative it returns a matrix
  as well. A base of shape \<open>(2, 3)\<close> makes the block assignment raise numpy's
  \<open>ValueError\<close>, not \<open>InvalidParameter\<close>.
\<close>

theorem augmenter_invalid_counterexample:
  "matrix_with_void edge2 (Fin 2)
     = Inr (map (map Fin) [[0, 1, - 2], [1, 0, - 2], [- 2, - 2, 0]])
   \<and> matrix_with_void skew2 (Fin 0)
     = Inr (map (map Fin) [[0, - 1, 0], [3, 0, 0], [0, 0, 0]])
   \<and> matrix_with_void (map (map Fin) [[1, 2, 3], [4, 5, 6]]) (Fin (1 / 2)) = Inl ValueError"
  by (simp add: augmenter_defs edge2_def skew2_def)

text \<open>
  C4, amended: the augmenter validates nothing. For every square base matrix, symmetric
  or not, with entries of any sign, finite or not, and for every \<open>p_void\<close>, inside or
  outside \<open>(0,1)\<close>, it returns an \<open>(N+1) \<times> (N+1)\<close> matrix. On every input it either
  returns a matrix or raises numpy's \<open>ValueError\<close> (a base whose shape does not broadcast
  in the block assignment); it never fails with \<open>InvalidParameter\<close>.
\<close>

theorem augmenter_no_validation:
  "(matrix_with_void base p = Inl ValueError \<or> (\<exists>M. matrix_with_void base p = Inr M))
   \<and> matrix_with_void base p \<noteq> Inl InvalidParameter
   \<and> (is_array2 N N base \<longrightarrow>
        (\<exists>M. matrix_with_void base p = Inr M \<and> is_array2 (N + 1) (N + 1) M))"
proof -
  have a: "matrix_with_void base p = Inl ValueError \<or> (\<exists>M. matrix_with_void base p = Inr M)"
    by (simp add: matrix_with_void_def Let_def split: option.split)
  then have b: "matrix_with_void base p \<noteq> Inl InvalidParameter" by auto
  have c: "\<exists>M. matrix_with_void base p = Inr M \<and> is_array2 (N + 1) (N + 1) M"
    if sq: "is_array2 N N base"
  proof -
    have "matrix_with_void base p = Inr (augmented N base p)"
      using matrix_with_void_square [OF sq] by (simp add: augmented_def)
    then show ?thesis using augmented_array2 [OF sq] by blast
  qed
  from a b c show ?thesis by blast
qed

theorem augmenter_no_validation_witness:
  "is_array2 2 2 skew2
   \<and> (\<exists>M. matrix_with_void skew2 NonFin = Inr M \<and> is_array2 3 3 M)"
proof -
  have sq: "is_array2 2 2 skew2" by (simp add: is_array2_def skew2_def)
  from augmenter_no_validation [of skew2 NonFin 2] sq show ?thesis by simp
qed

section \<open>Claims about the solver\<close>

text \<open>
  C3. For every square finite matrix \<open>A\<close> with \<open>N \<ge> 2\<close> whose retained eigenvalues
  \<open>l[1], ..., l[N-1]\<close> are not zero (as they are for a symmetric non-negative connected
  graph), the solver called with \<open>weighted = False\<close> returns the vector whose entry \<open>j\<close>
  is the sum over the retained modes \<open>i = 1..N-1\<close> of
  \<open>(1/l[i]) \<cdot> (2E \<cdot> v[i,j]\<^sup>2 - v[i,j] \<cdot> dv[i])\<close>, scaled by \<open>N/(N-1)\<close>, where \<open>l\<close> and \<open>v\<close> are
  the sorted eigenvalues and the sorted eigenvectors (an \<open>N \<times> N\<close> array) of the
  Laplacian and \<open>dv[i] = \<Sum>\<^sub>k v[i,k] \<cdot> d[k]\<close>.
\<close>

theorem unweighted_formula:
  assumes "is_array2 N N A" and "all_fin A" and "2 \<le> N"
    and "solver_spectrum eig argsort A = (l, v)"
    and "is_array2 N N v"
    and "list_all (\<lambda>i. l ! i \<noteq> 0) [1..<N]"
  shows "GMFPT_theory eig argsort A False
           = Inr (map (\<lambda>j. Fin (spec_unweighted N (total_weight A) l v (degrees A) j)) [0..<N])"
  using assms by (rule unweighted_value)

theorem unweighted_formula_witness:
  "is_array2 3 3 path3 \<and> all_fin path3 \<and> (2::nat) \<le> 3
   \<and> solver_spectrum eig_tab argsort_lex path3 = ([0, 1, 3], modes_path3)
   \<and> is_array2 3 3 modes_path3
   \<and> list_all (\<lambda>i. [0, 1, 3 :: real] ! i \<noteq> 0) [1..<3]
   \<and> GMFPT_theory eig_tab argsort_lex path3 False = Inr [Fin (7 / 2), Fin 1, Fin (7 / 2)]"
proof -
  have "GMFPT_theory eig_tab argsort_lex path3 False = Inr [Fin (7 / 2), Fin 1, Fin (7 / 2)]"
    using unweighted_formula [OF path3_shape _ spectrum_path3 modes_path3_shape retained_path3]
    by (simp only: path3_weights spec_unweighted_path3)
  then show ?thesis
    using path3_shape spectrum_path3 modes_path3_shape retained_path3 by simp
qed

text \<open>
  C1. With \<open>weighted = True\<close> the solver is to return, for each node \<open>j\<close>, the sum over the
  retained modes of \<open>(1/\<lambda>\<^sub>i) \<cdot> ((2E)\<^sup>2 \<cdot> v[i,j]\<^sup>2 - 4E \<cdot> v[i,j] \<cdot> dv[i] - dv[i]\<^sup>2)\<close>, divided
  by \<open>2E\<close>. The code does not compute that: it sets \<open>dvi = v[i,j]*dv[i]\<close> and uses \<open>dvi\<close>
  where the formula has \<open>dv[i]\<close>, so that the cross term is \<open>4E \<cdot> v[i,j]\<^sup>2 \<cdot> dv[i]\<close>, of odd
  degree in the eigenvector. On the path 0 - 1 - 2 the formula gives
  \<open>[43/18, 7/18, 43/18]\<close>; the code returns \<open>[239/108 - 2/(9\<surd>6), 23/27 - 8/(9\<surd>6), ...]\<close>
  with the eigenvectors of the table and \<open>[239/108 + 2/(9\<surd>6), 23/27 + 8/(9\<surd>6), ...]\<close>
  with the opposite ones, which are eigenvectors just as well: its result depends on a
  sign that the graph does not determine. The unweighted branch, whose cross term is
  \<open>v[i,j] \<cdot> dv[i]\<close>, returns the same vector for both.
\<close>

theorem weighted_path_divergence:
  "GMFPT_theory eig_tab argsort_lex path3 True
     = Inr [Fin (239 / 108 - 2 / (9 * sqrt 6)), Fin (23 / 27 - 8 / (9 * sqrt 6)),
            Fin (239 / 108 - 2 / (9 * sqrt 6))]
   \<and> GMFPT_theory (flip_signs eig_tab) argsort_lex path3 True
     = Inr [Fin (239 / 108 + 2 / (9 * sqrt 6)), Fin (23 / 27 + 8 / (9 * sqrt 6)),
            Fin (239 / 108 + 2 / (9 * sqrt 6))]
   \<and> map (\<lambda>j. Fin (spec_weighted 3 (total_weight path3) [0, 1, 3] modes_path3 (degrees path3) j))
         [0..<3]
     = [Fin (43 / 18), Fin (7 / 18), Fin (43 / 18)]
   \<and> GMFPT_theory eig_tab argsort_lex path3 True
     \<noteq> Inr (map (\<lambda>j. Fin (spec_weighted 3 (total_weight path3) [0, 1, 3] modes_path3
                             (degrees path3) j)) [0..<3])
   \<and> GMFPT_theory (flip_signs eig_tab) argsort_lex path3 True
     \<noteq> GMFPT_theory eig_tab argsort_lex path3 True
   \<and> GMFPT_theory (flip_signs eig_tab) argsort_lex path3 False
     = GMFPT_theory eig_tab argsort_lex path3 False"
proof -
  have "2\<^sup>2 < (6::real)" by simp
  then have two: "2 < sqrt 6" by (rule real_less_rsqrt)
  then have "8 / (9 * sqrt 6) < 8 / (9 * 2)"
    by (intro divide_strict_left_mono) simp_all
  then have ne: "23 / 27 - 8 / (9 * sqrt 6) \<noteq> (7 / 18 :: real)" by simp
  have pos: "0 < 8 / (9 * sqrt 6)" by simp
  then have sgn: "23 / 27 + 8 / (9 * sqrt 6) \<noteq> 23 / 27 - 8 / (9 * sqrt 6)" by linarith
  have sp: "map (\<lambda>j. Fin (spec_weighted 3 (total_weight path3) [0, 1, 3] modes_path3
                           (degrees path3) j)) [0..<3]
            = [Fin (43 / 18), Fin (7 / 18), Fin (43 / 18)]"
    by (simp only: path3_weights spec_weighted_path3)
  show ?thesis
    unfolding sp path3_weighted path3_weighted_flipped path3_unweighted
      path3_unweighted_flipped
    using ne sgn by simp
qed

text \<open>
  C10. For a \<open>1 \<times> 1\<close> input matrix (of a finite entry) the solver called with
  \<open>weighted = False\<close> does not return a vector: the final \<open>float(N)/(N-1.0)\<close> divides by
  zero and the call raises \<open>ZeroDivisionError\<close>, whatever the eigensolver answers.
\<close>

theorem single_node_division_by_zero:
  "GMFPT_theory eig argsort [[Fin x]] False = Inl ZeroDivisionError"
proof -
  have sq: "is_array2 1 1 [[Fin x]]" by (simp add: is_array2_def)
  have fin: "all_fin [[Fin x]]" by (simp add: all_fin_def)
  obtain l v where sp: "solver_spectrum eig argsort [[Fin x]] = (l, v)"
    by (cases "solver_spectrum eig argsort [[Fin x]]") simp
  show ?thesis using GMFPT_theory_square [OF sq fin sp, of False] by simp
qed

text \<open>
  C5, as stated: for every input graph whose Laplacian has more than one eigenvalue
  (numerically) 0, a disconnected graph, the solver fails with \<open>DegenerateSpectrum\<close>, or at
  least does not silently divide by that eigenvalue. On the two disjoint edges, whose
  Laplacian has the eigenvalues 0, 0, 2, 2, both variants of the solver divide by
  \<open>l[1] = 0\<close> and return a vector, all of whose entries are \<open>inf\<close> or \<open>nan\<close>.
\<close>

theorem degenerate_spectrum_counterexample:
  "solver_spectrum eig_tab argsort_lex two_edges = ([0, 0, 2, 2], modes_two_edges)
   \<and> GMFPT_theory eig_tab argsort_lex two_edges True = Inr [NonFin, NonFin, NonFin, NonFin]
   \<and> GMFPT_theory eig_tab argsort_lex two_edges False = Inr [NonFin, NonFin, NonFin, NonFin]"
  by (simp only: spectrum_two_edges two_edges_value)

text \<open>
  C5, amended: the solver has no test of the spectrum. On no input does it fail with
  \<open>DegenerateSpectrum\<close>. For every square finite matrix (with \<open>weighted = True\<close>, or with
  \<open>N \<noteq> 1\<close>) it returns a vector of length \<open>N\<close>, whatever the eigenvalues are; when a
  retained eigenvalue \<open>l[i]\<close>, \<open>1 \<le> i < N\<close>, is exactly 0, it has divided by it and every
  entry of the returned vector is non-finite (\<open>inf\<close> or \<open>nan\<close>).
\<close>

theorem no_spectrum_check:
  "GMFPT_theory eig argsort A weighted \<noteq> Inl DegenerateSpectrum
   \<and> (is_array2 N N A \<and> all_fin A \<and> (weighted \<or> N \<noteq> 1)
        \<and> solver_spectrum eig argsort A = (l, v) \<longrightarrow>
      (\<exists>T. GMFPT_theory eig argsort A weighted = Inr T \<and> length T = N
           \<and> (\<not> list_all (\<lambda>i. l ! i \<noteq> 0) [1..<N] \<longrightarrow> T = replicate N NonFin)))"
  using never_degenerate [of eig argsort A weighted]
    degenerate_value [of N A weighted eig argsort l v]
  by blast

theorem no_spectrum_check_witness:
  "is_array2 4 4 two_edges \<and> all_fin two_edges
   \<and> solver_spectrum eig_tab argsort_lex two_edges = ([0, 0, 2, 2], modes_two_edges)
   \<and> \<not> list_all (\<lambda>i. [0, 0, 2, 2 :: real] ! i \<noteq> 0) [1..<4]
   \<and> (\<exists>T. GMFPT_theory eig_tab argsort_lex two_edges False = Inr T \<and> length T = 4
          \<and> T = replicate 4 NonFin)"
proof -
  have z: "\<not> list_all (\<lambda>i. [0, 0, 2, 2 :: real] ! i \<noteq> 0) [1..<4]"
    by (simp add: upt_rec)
  from no_spectrum_check [of eig_tab argsort_lex two_edges False 4 "[0, 0, 2, 2]" modes_two_edges]
    two_edges_shape spectrum_two_edges z
  show ?thesis by simp
qed

text \<open>
  C6, as stated: for every positive \<open>c\<close> the unweighted output on \<open>c \<cdot> A\<close> is \<open>1/c\<close> times the
  unweighted output on \<open>A\<close>, and the weighted output on \<open>c \<cdot> A\<close> equals the weighted output
  on \<open>A\<close>. The first half fails: each term \<open>(1/\<lambda>\<^sub>i) \<cdot> (2E \<cdot> v\<^sup>2 - v \<cdot> dv[i])\<close> has \<open>c\<close> in its
  numerator and in its denominator. On the path 0 - 1 - 2 and \<open>c = 2\<close>, with the
  eigenvalues of the Laplacian doubled and its eigenvectors unchanged, the unweighted
  output is \<open>[7/2, 1, 7/2]\<close> for \<open>A\<close> and for \<open>2 \<cdot> A\<close>, not \<open>[7/4, 1/2, 7/4]\<close>.
\<close>

theorem scale_counterexample:
  "GMFPT_theory eig_tab argsort_lex path3 False = Inr [Fin (7 / 2), Fin 1, Fin (7 / 2)]
   \<and> GMFPT_theory eig_tab argsort_lex (scale 2 path3) False
       = Inr [Fin (7 / 2), Fin 1, Fin (7 / 2)]
   \<and> GMFPT_theory eig_tab argsort_lex (scale 2 path3) False
       \<noteq> Inr (map (fmul (Fin (1 / 2))) [Fin (7 / 2), Fin 1, Fin (7 / 2)])"
  by (simp add: path3_unweighted path3_doubled_unweighted)

text \<open>
  C6, amended: for every square finite matrix \<open>A\<close> and every positive constant \<open>c\<close>, when
  the sorted spectrum of the Laplacian of \<open>c \<cdot> A\<close> is that of \<open>A\<close> with the eigenvalues
  multiplied by \<open>c\<close> and the same eigenvectors, the solver's unweighted output on \<open>c \<cdot> A\<close>
  equals its unweighted output on \<open>A\<close>, and its weighted output on \<open>c \<cdot> A\<close> equals its
  weighted output on \<open>A\<close>: both variants are scale-invariant.
\<close>

theorem scale_invariance:
  assumes "is_array2 N N A" and "all_fin A" and "0 < c"
    and "solver_spectrum eig argsort A = (l, v)"
    and "solver_spectrum eig argsort (scale c A) = (map ((*) c) l, v)"
    and "length l = N" and "length v = N"
  shows "GMFPT_theory eig argsort (scale c A) False = GMFPT_theory eig argsort A False
       \<and> GMFPT_theory eig argsort (scale c A) True = GMFPT_theory eig argsort A True"
proof -
  have c: "c \<noteq> 0" using assms(3) by simp
  show ?thesis
    using scale_value [OF assms(1,2) c assms(4,5,6,7)] by simp
qed

theorem scale_invariance_witness:
  "is_array2 3 3 path3 \<and> all_fin path3 \<and> (0::real) < 2
   \<and> solver_spectrum eig_tab argsort_lex path3 = ([0, 1, 3], modes_path3)
   \<and> solver_spectrum eig_tab argsort_lex (scale 2 path3) = (map ((*) 2) [0, 1, 3], modes_path3)
   \<and> length [0, 1, 3 :: real] = 3 \<and> length modes_path3 = 3
   \<and> GMFPT_theory eig_tab argsort_lex (scale 2 path3) False
       = GMFPT_theory eig_tab argsort_lex path3 False
   \<and> GMFPT_theory eig_tab argsort_lex (scale 2 path3) True
       = GMFPT_theory eig_tab argsort_lex path3 True"
proof -
  have sp2: "solver_spectrum eig_tab argsort_lex (scale 2 path3)
             = (map ((*) 2) [0, 1, 3], modes_path3)"
    by (simp add: spectrum_path3_doubled)
  have len: "length [0, 1, 3 :: real] = 3" "length modes_path3 = 3"
    by (simp_all add: modes_path3_def)
  from scale_invariance [OF path3_shape _ spectrum_path3 sp2 len, of ]
  have "GMFPT_theory eig_tab argsort_lex (scale 2 path3) False
          = GMFPT_theory eig_tab argsort_lex path3 False
        \<and> GMFPT_theory eig_tab argsort_lex (scale 2 path3) True
          = GMFPT_theory eig_tab argsort_lex path3 True"
    by simp
  then show ?thesis using path3_shape spectrum_path3 sp2 len by simp
qed

section \<open>Claims about the store\<close>

text \<open>
  C9. Neither \<open>matrix_with_void\<close> nor \<open>GMFPT_theory\<close> mutates its caller-owned input
  matrix: after a call on the array at address \<open>a\<close>, every array that was in the store
  before the call, the input among them, is unchanged; and the result of
  \<open>matrix_with_void\<close> is at an address that was not allocated before the call, so it is
  a new array, distinct from the base.
\<close>

theorem inputs_not_mutated:
  assumes "a < length h"
  shows "take (length h) (snd (matrix_with_void_h h a p)) = h
       \<and> snd (matrix_with_void_h h a p) ! a = h ! a
       \<and> (\<forall>r. fst (matrix_with_void_h h a p) = Inr r \<longrightarrow>
              r \<noteq> a \<and> length h \<le> r \<and> r < length (snd (matrix_with_void_h h a p)))
       \<and> take (length h) (snd (GMFPT_theory_h eig argsort h a weighted)) = h
       \<and> snd (GMFPT_theory_h eig argsort h a weighted) ! a = h ! a"
proof (cases "h ! a")
  case (Vec xs)
  then show ?thesis by (simp add: matrix_with_void_h_def GMFPT_theory_h_def)
next
  case (Mat m0)
  have aug: "take (length h) (snd (matrix_with_void_h h a p)) = h
       \<and> snd (matrix_with_void_h h a p) ! a = h ! a
       \<and> (\<forall>r. fst (matrix_with_void_h h a p) = Inr r \<longrightarrow>
              r \<noteq> a \<and> length h \<le> r \<and> r < length (snd (matrix_with_void_h h a p)))"
    using assms
    by (simp add: matrix_with_void_h_char [OF assms Mat] nth_append split: sum.split)
  obtain g where "snd (GMFPT_theory_h eig argsort h a weighted) = h @ g"
    using GMFPT_theory_h_char [OF assms Mat] by blast
  then have "take (length h) (snd (GMFPT_theory_h eig argsort h a weighted)) = h
       \<and> snd (GMFPT_theory_h eig argsort h a weighted) ! a = h ! a"
    using assms by (simp add: nth_append)
  with aug show ?thesis by simp
qed

theorem inputs_not_mutated_witness:
  "(0::nat) < length [Mat path3]
   \<and> fst (matrix_with_void_h [Mat path3] 0 (Fin (1 / 2))) = Inr 1
   \<and> snd (matrix_with_void_h [Mat path3] 0 (Fin (1 / 2))) ! 0 = Mat path3
   \<and> take 1 (snd (GMFPT_theory_h eig_tab argsort_lex [Mat path3] 0 False)) = [Mat path3]"
proof -
  obtain M where "matrix_with_void path3 (Fin (1 / 2)) = Inr M"
    using matrix_with_void_square [OF path3_shape(1)] by blast
  then have r: "fst (matrix_with_void_h [Mat path3] 0 (Fin (1 / 2))) = Inr 1"
    using matrix_with_void_h_char [of 0 "[Mat path3]" path3 "Fin (1 / 2)"] by simp
  from inputs_not_mutated [of 0 "[Mat path3]" "Fin (1 / 2)" eig_tab argsort_lex False] r
  show ?thesis by simp
qed

end
